theory Spec2Isabelle
  imports Main "HOL-Library.Word" "HOL-Library.AList" "HOL-Library.Char_ord"
    "HOL-Library.List_Lexorder"
begin

unbundle bit_operations_syntax

section \<open>Bytes and strings\<close>

text \<open>
  A Go \<^verbatim>\<open>string\<close> is a sequence of bytes; it is modelled by \<^typ>\<open>string\<close> (a list of
  8-bit characters). A Go \<^verbatim>\<open>[]byte\<close> is a list of 8-bit words; the \<^verbatim>\<open>nil\<close> slice and
  the empty slice are both the empty list.
\<close>

type_synonym byte = "8 word"

definition bytes_of :: "string \<Rightarrow> byte list" where
  "bytes_of s = map of_char s"

section \<open>Key derivation: \<^verbatim>\<open>crypto/sha256\<close> and \<^verbatim>\<open>encoding/hex\<close>\<close>

text \<open>
  SHA-256 as FIPS 180-4 defines it, on 32-bit words: the message is padded with the
  byte \<^verbatim>\<open>0x80\<close>, zero bytes up to 56 modulo 64 and the bit length as a 64-bit
  big-endian number; every 64-byte block is expanded to a schedule of 64 words and
  run through 64 rounds of the compression function.
\<close>

text \<open>
  The round constants: each is the first 32 bits of the fractional part of the cube
  root of a prime, and is listed with its prime.
\<close>

definition sha256_K_of_prime :: "(nat \<times> 32 word) list" where
  "sha256_K_of_prime =
   [(2, 0x428a2f98), (3, 0x71374491), (5, 0xb5c0fbcf), (7, 0xe9b5dba5),
    (11, 0x3956c25b), (13, 0x59f111f1), (17, 0x923f82a4), (19, 0xab1c5ed5),
    (23, 0xd807aa98), (29, 0x12835b01), (31, 0x243185be), (37, 0x550c7dc3),
    (41, 0x72be5d74), (43, 0x80deb1fe), (47, 0x9bdc06a7), (53, 0xc19bf174),
    (59, 0xe49b69c1), (61, 0xefbe4786), (67, 0x0fc19dc6), (71, 0x240ca1cc),
    (73, 0x2de92c6f), (79, 0x4a7484aa), (83, 0x5cb0a9dc), (89, 0x76f988da),
    (97, 0x983e5152), (101, 0xa831c66d), (103, 0xb00327c8), (107, 0xbf597fc7),
    (109, 0xc6e00bf3), (113, 0xd5a79147), (127, 0x06ca6351), (131, 0x14292967),
    (137, 0x27b70a85), (139, 0x2e1b2138), (149, 0x4d2c6dfc), (151, 0x53380d13),
    (157, 0x650a7354), (163, 0x766a0abb), (167, 0x81c2c92e), (173, 0x92722c85),
    (179, 0xa2bfe8a1), (181, 0xa81a664b), (191, 0xc24b8b70), (193, 0xc76c51a3),
    (197, 0xd192e819), (199, 0xd6990624), (211, 0xf40e3585), (223, 0x106aa070),
    (227, 0x19a4c116), (229, 0x1e376c08), (233, 0x2748774c), (239, 0x34b0bcb5),
    (241, 0x391c0cb3), (251, 0x4ed8aa4a), (257, 0x5b9cca4f), (263, 0x682e6ff3),
    (269, 0x748f82ee), (271, 0x78a5636f), (277, 0x84c87814), (281, 0x8cc70208),
    (283, 0x90befffa), (293, 0xa4506ceb), (307, 0xbef9a3f7), (311, 0xc67178f2)]"

definition sha256_K :: "32 word list" where
  "sha256_K = map snd sha256_K_of_prime"

definition sha256_init :: "32 word list" where
  "sha256_init =
   [0x6a09e667, 0xbb67ae85, 0x3c6ef372, 0xa54ff53a, 0x510e527f, 0x9b05688c, 0x1f83d9ab, 0x5be0cd19]"

definition rotr :: "nat \<Rightarrow> 32 word \<Rightarrow> 32 word" where
  "rotr n x = (drop_bit n x) OR (push_bit (32 - n) x)"

definition small_sigma0 :: "32 word \<Rightarrow> 32 word" where
  "small_sigma0 x = rotr 7 x XOR rotr 18 x XOR drop_bit 3 x"

definition small_sigma1 :: "32 word \<Rightarrow> 32 word" where
  "small_sigma1 x = rotr 17 x XOR rotr 19 x XOR drop_bit 10 x"

definition big_sigma0 :: "32 word \<Rightarrow> 32 word" where
  "big_sigma0 x = rotr 2 x XOR rotr 13 x XOR rotr 22 x"

definition big_sigma1 :: "32 word \<Rightarrow> 32 word" where
  "big_sigma1 x = rotr 6 x XOR rotr 11 x XOR rotr 25 x"

definition sha_ch :: "32 word \<Rightarrow> 32 word \<Rightarrow> 32 word \<Rightarrow> 32 word" where
  "sha_ch x y z = (x AND y) XOR (NOT x AND z)"

definition sha_maj :: "32 word \<Rightarrow> 32 word \<Rightarrow> 32 word \<Rightarrow> 32 word" where
  "sha_maj x y z = (x AND y) XOR (x AND z) XOR (y AND z)"

text \<open>Big-endian conversions between bytes and words.\<close>

fun be32 :: "byte list \<Rightarrow> 32 word" where
  "be32 [] = 0"
| "be32 (b # bs) = push_bit (8 * length bs) (ucast b) OR be32 bs"

definition be_bytes :: "nat \<Rightarrow> 'a::len word \<Rightarrow> byte list" where
  "be_bytes n w = map (\<lambda>i. ucast (drop_bit (8 * (n - 1 - i)) w)) [0..<n]"

fun chunks :: "nat \<Rightarrow> 'a list \<Rightarrow> 'a list list" where
  "chunks n [] = []"
| "chunks n (x # xs) =
     (if n = 0 then [] else take n (x # xs) # chunks n (drop n (x # xs)))"

definition sha256_pad :: "byte list \<Rightarrow> byte list" where
  "sha256_pad m =
     m @ [0x80] @ replicate ((119 - length m mod 64) mod 64) 0
       @ be_bytes 8 (push_bit 3 (word_of_nat (length m)) :: 64 word)"

text \<open>
  The message schedule: \<open>ws\<close> holds the words computed so far, newest first, so that
  \<open>W\<^sub>t\<^sub>-\<^sub>2\<close>, \<open>W\<^sub>t\<^sub>-\<^sub>7\<close>, \<open>W\<^sub>t\<^sub>-\<^sub>1\<^sub>5\<close> and \<open>W\<^sub>t\<^sub>-\<^sub>1\<^sub>6\<close> are at positions 1, 6, 14 and 15.
\<close>

fun sha256_extend :: "nat \<Rightarrow> 32 word list \<Rightarrow> 32 word list" where
  "sha256_extend 0 ws = ws"
| "sha256_extend (Suc k) ws =
     sha256_extend k
       ((small_sigma1 (ws ! 1) + ws ! 6 + small_sigma0 (ws ! 14) + ws ! 15) # ws)"

definition sha256_schedule :: "byte list \<Rightarrow> 32 word list" where
  "sha256_schedule block = rev (sha256_extend 48 (rev (map be32 (chunks 4 block))))"

fun sha256_round :: "32 word list \<Rightarrow> 32 word \<times> 32 word \<Rightarrow> 32 word list" where
  "sha256_round [a, b, c, d, e, f, g, h] (k, w) =
     (let t1 = h + big_sigma1 e + sha_ch e f g + k + w;
          t2 = big_sigma0 a + sha_maj a b c
      in [t1 + t2, a, b, c, d + t1, e, f, g])"
| "sha256_round st _ = st"

definition sha256_block :: "32 word list \<Rightarrow> byte list \<Rightarrow> 32 word list" where
  "sha256_block hs block =
     map2 (+) hs (foldl sha256_round hs (zip sha256_K (sha256_schedule block)))"

definition sha256_Sum :: "byte list \<Rightarrow> byte list" where
  "sha256_Sum m =
     concat (map (be_bytes 4)
       (foldl sha256_block sha256_init (chunks 64 (sha256_pad m))))"

text \<open>\<^verbatim>\<open>hex.EncodeToString\<close>: two lower-case hexadecimal digits for every byte.\<close>

definition hextable :: string where
  "hextable = ''0123456789abcdef''"

definition hex_byte :: "byte \<Rightarrow> string" where
  "hex_byte b = [hextable ! unat (drop_bit 4 b), hextable ! unat (b AND 0x0f)]"

definition hex_EncodeToString :: "byte list \<Rightarrow> string" where
  "hex_EncodeToString src = concat (map hex_byte src)"

text \<open>
  An \<^verbatim>\<open>http.Header\<close> is a map from header names to lists of values; it is kept as
  an association list, since the handler ranges over it.
\<close>

type_synonym header = "(string \<times> string list) list"

text \<open>
  \<^verbatim>\<open>getCacheKey(method, url, headers)\<close>: the hash is fed the bytes of the method and
  then the bytes of the url; the \<^verbatim>\<open>headers\<close> parameter is not read.
\<close>

definition getCacheKey :: "string \<Rightarrow> string \<Rightarrow> header \<Rightarrow> string" where
  "getCacheKey method url headers =
     hex_EncodeToString (sha256_Sum (bytes_of method @ bytes_of url))"

section \<open>Time: \<^verbatim>\<open>time.Time\<close> and \<^verbatim>\<open>time.Duration\<close>\<close>

text \<open>
  A \<^verbatim>\<open>time.Time\<close> is kept as its wall-clock instant, in nanoseconds since the Unix
  epoch. A timestamp decoded from a cache file carries no monotonic clock reading, so
  \<^verbatim>\<open>time.Since\<close> and \<^verbatim>\<open>Time.Sub\<close> compare wall-clock instants. A \<^verbatim>\<open>time.Duration\<close>
  is an \<^verbatim>\<open>int64\<close> count of nanoseconds, read with \<^const>\<open>sint\<close>.
\<close>

type_synonym Time = int
type_synonym Duration = "64 word"

definition maxDuration :: int where
  "maxDuration = 2 ^ 63 - 1"

definition minDuration :: int where
  "minDuration = - (2 ^ 63)"

text \<open>
  \<^verbatim>\<open>t.Sub(u)\<close>: the difference, and the largest (smallest) duration when the
  difference is above (below) what a \<^verbatim>\<open>Duration\<close> holds.
\<close>

definition time_Sub :: "Time \<Rightarrow> Time \<Rightarrow> Duration" where
  "time_Sub t u =
     (if maxDuration < t - u then word_of_int maxDuration
      else if t - u < minDuration then word_of_int minDuration
      else word_of_int (t - u))"

definition Second :: Duration where
  "Second = 1000000000"

text \<open>
  \<^verbatim>\<open>main\<close>, line 243: \<^verbatim>\<open>cacheTTL := time.Duration(ttlSeconds) * time.Second\<close>, where
  \<^verbatim>\<open>ttlSeconds\<close> is an \<^verbatim>\<open>int\<close> (the default 3600, or the positive value of
  \<^verbatim>\<open>CACHE_TTL_SECONDS\<close>). The product is an \<^verbatim>\<open>int64\<close> product and wraps around.
\<close>

definition cacheTTL :: "64 word \<Rightarrow> Duration" where
  "cacheTTL ttlSeconds = ttlSeconds * Second"

section \<open>Errors\<close>

datatype errno = ENOENT | EACCES | EISDIR | ENOTEMPTY | ENOTDIR | EIO | ENOSPC | EROFS | EMFILE

fun errno_Error :: "errno \<Rightarrow> string" where
  "errno_Error ENOENT = ''no such file or directory''"
| "errno_Error EACCES = ''permission denied''"
| "errno_Error EISDIR = ''is a directory''"
| "errno_Error ENOTEMPTY = ''directory not empty''"
| "errno_Error ENOTDIR = ''not a directory''"
| "errno_Error EIO = ''input/output error''"
| "errno_Error ENOSPC = ''no space left on device''"
| "errno_Error EROFS = ''read-only file system''"
| "errno_Error EMFILE = ''too many open files''"

text \<open>
  An \<^verbatim>\<open>error\<close> value is either an \<^verbatim>\<open>*fs.PathError\<close> (operation, path, errno), as the
  \<^verbatim>\<open>os\<close> functions return it, or an error that only carries its message
  (\<^verbatim>\<open>fmt.Errorf\<close>, and the errors of \<^verbatim>\<open>compress/gzip\<close> and \<^verbatim>\<open>encoding/json\<close>).
\<close>

datatype error = PathError string string errno | ErrorString string

fun Error :: "error \<Rightarrow> string" where
  "Error (PathError opn path e) = opn @ '' '' @ path @ '': '' @ errno_Error e"
| "Error (ErrorString s) = s"

fun os_IsNotExist :: "error \<Rightarrow> bool" where
  "os_IsNotExist (PathError opn path e) = (e = ENOENT)"
| "os_IsNotExist (ErrorString s) = False"

section \<open>The world: files, injected faults, the log\<close>

text \<open>
  The file system is a store from path strings to nodes. Only what the program
  touches is modelled: regular files with their bytes, and directories. Everything
  else that can make a system call fail (permissions, a missing parent directory,
  an I/O error, a full disk) is an injected fault: \<open>faults w call path\<close> says
  with which errno the call fails on that path, if it does. \<open>SysWrite n\<close> is the
  write of the byte at offset \<open>n\<close> of a file: on a disk with room for ten more
  bytes every \<open>SysWrite n\<close> with \<open>10 \<le> n\<close> fails with \<^verbatim>\<open>ENOSPC\<close>. \<open>logged\<close> holds
  the messages given to \<^verbatim>\<open>log.Printf\<close>, oldest first.
\<close>

datatype node = File "byte list" | Dir

datatype syscall = SysOpen | SysCreate | SysWrite nat | SysRemove | SysReadDir

record world =
  files :: "(string \<times> node) list"
  faults :: "syscall \<Rightarrow> string \<Rightarrow> errno option"
  logged :: "string list"

definition log_Printf :: "world \<Rightarrow> string \<Rightarrow> world" where
  "log_Printf w msg = w\<lparr>logged := logged w @ [msg]\<rparr>"

text \<open>
  \<^verbatim>\<open>filepath.Join(dir, name)\<close> for a directory path in its cleaned form and a plain
  file name: the two joined by the separator. \<^verbatim>\<open>Join\<close> cleans its result, so the
  directory of a \<open>ProxyCache\<close> is kept in cleaned form here: \<^verbatim>\<open>cache\<close> for the
  \<^verbatim>\<open>./cache\<close> that \<^verbatim>\<open>main\<close> passes.
\<close>

definition filepath_Join :: "string \<Rightarrow> string \<Rightarrow> string" where
  "filepath_Join dir name = dir @ ''/'' @ name"

definition os_Open :: "world \<Rightarrow> string \<Rightarrow> error + node" where
  "os_Open w path =
     (case faults w SysOpen path of
        Some e \<Rightarrow> Inl (PathError ''open'' path e)
      | None \<Rightarrow>
          (case map_of (files w) path of
             None \<Rightarrow> Inl (PathError ''open'' path ENOENT)
           | Some f \<Rightarrow> Inr f))"

text \<open>Reading an open file to its end; reading a directory fails.\<close>

fun file_Read :: "string \<Rightarrow> node \<Rightarrow> error + byte list" where
  "file_Read path (File bs) = Inr bs"
| "file_Read path Dir = Inl (PathError ''read'' path EISDIR)"

text \<open>\<^verbatim>\<open>os.Create\<close>: the file is created, or truncated when it exists.\<close>

definition os_Create :: "world \<Rightarrow> string \<Rightarrow> error + world" where
  "os_Create w path =
     (case faults w SysCreate path of
        Some e \<Rightarrow> Inl (PathError ''open'' path e)
      | None \<Rightarrow>
          (case map_of (files w) path of
             Some Dir \<Rightarrow> Inl (PathError ''open'' path EISDIR)
           | _ \<Rightarrow> Inr (w\<lparr>files := AList.update path (File []) (files w)\<rparr>)))"

definition file_Write :: "world \<Rightarrow> string \<Rightarrow> byte list \<Rightarrow> world" where
  "file_Write w path bs = w\<lparr>files := AList.update path (File bs) (files w)\<rparr>"

text \<open>
  The first offset below \<open>n\<close> at which a write to the file fails, with its errno.
  A stream written to a file just created reaches the file up to that offset, in
  however many \<^verbatim>\<open>Write\<close> calls it is written; the call that covers the offset
  returns the error, and no later byte is written.
\<close>

definition write_fault :: "world \<Rightarrow> string \<Rightarrow> nat \<Rightarrow> (nat \<times> errno) option" where
  "write_fault w path n =
     (case find (\<lambda>k. faults w (SysWrite k) path \<noteq> None) [0..<n] of
        None \<Rightarrow> None
      | Some k \<Rightarrow> map_option (Pair k) (faults w (SysWrite k) path))"

definition file_Write_stream ::
  "world \<Rightarrow> string \<Rightarrow> byte list \<Rightarrow> world \<times> (nat \<times> errno) option" where
  "file_Write_stream w path stream =
     (case write_fault w path (length stream) of
        None \<Rightarrow> (file_Write w path stream, None)
      | Some (k, e) \<Rightarrow> (file_Write w path (take k stream), Some (k, e)))"

definition has_children :: "world \<Rightarrow> string \<Rightarrow> bool" where
  "has_children w path =
     list_ex (\<lambda>(p, f). take (length path + 1) p = path @ ''/'') (files w)"

text \<open>\<^verbatim>\<open>os.Remove\<close>: removes a file, or a directory that is empty.\<close>

definition os_Remove :: "world \<Rightarrow> string \<Rightarrow> error option \<times> world" where
  "os_Remove w path =
     (case faults w SysRemove path of
        Some e \<Rightarrow> (Some (PathError ''remove'' path e), w)
      | None \<Rightarrow>
          (case map_of (files w) path of
             None \<Rightarrow> (Some (PathError ''remove'' path ENOENT), w)
           | Some Dir \<Rightarrow>
               if has_children w path then (Some (PathError ''remove'' path ENOTEMPTY), w)
               else (None, w\<lparr>files := AList.delete path (files w)\<rparr>)
           | Some (File bs) \<Rightarrow> (None, w\<lparr>files := AList.delete path (files w)\<rparr>)))"

text \<open>
  \<^verbatim>\<open>os.ReadDir\<close>: the entries directly under the directory, sorted by file name.
\<close>

datatype DirEntry = DirEntry (Name: string) (IsDir: bool)

definition is_child :: "string \<Rightarrow> string \<Rightarrow> bool" where
  "is_child dir p \<longleftrightarrow>
     take (length dir + 1) p = dir @ ''/''
     \<and> drop (length dir + 1) p \<noteq> []
     \<and> CHR ''/'' \<notin> set (drop (length dir + 1) p)"

definition dir_entries :: "string \<Rightarrow> (string \<times> node) list \<Rightarrow> DirEntry list" where
  "dir_entries dir fs =
     map (\<lambda>(p, f). DirEntry (drop (length dir + 1) p) (f = Dir))
       (filter (\<lambda>(p, f). is_child dir p) fs)"

definition os_ReadDir :: "world \<Rightarrow> string \<Rightarrow> error + DirEntry list" where
  "os_ReadDir w dir =
     (case faults w SysReadDir dir of
        Some e \<Rightarrow> Inl (PathError ''open'' dir e)
      | None \<Rightarrow> Inr (sort_key Name (dir_entries dir (files w))))"

section \<open>The codecs: \<^verbatim>\<open>compress/gzip\<close> and \<^verbatim>\<open>encoding/json\<close>\<close>

record CacheItem =
  Data :: "byte list"
  Timestamp :: Time

text \<open>
  The two codecs are Go's standard library, not code of this repository: they are
  parameters of the model. \<open>gzip_NewReader\<close> is given the bytes of the file and
  fails (with its message) or returns a reader; \<open>json_Decode\<close> decodes one
  \<^verbatim>\<open>CacheItem\<close> from a reader or fails; \<open>json_Encode\<close> gives the bytes that
  \<^verbatim>\<open>Encode\<close> writes for a \<^verbatim>\<open>CacheItem\<close>, or fails without writing;
  \<open>gzip_Writer\<close> gives the bytes a \<^verbatim>\<open>gzip.Writer\<close> puts into its file from the
  bytes written to it, up to and including its \<^verbatim>\<open>Close\<close>; \<open>gzip_Written\<close> says how
  many of them it has passed to the file when its \<^verbatim>\<open>Write\<close> returns (the header
  and the blocks already flushed), the others being written by \<^verbatim>\<open>Close\<close>.
\<close>

record 'r codecs =
  gzip_NewReader :: "byte list \<Rightarrow> string + 'r"
  json_Decode :: "'r \<Rightarrow> string + CacheItem"
  json_Encode :: "CacheItem \<Rightarrow> string + byte list"
  gzip_Writer :: "byte list \<Rightarrow> byte list"
  gzip_Written :: "byte list \<Rightarrow> nat"

section \<open>The cache\<close>

record ProxyCache =
  cacheDir :: string
  ttl :: Duration

definition readCacheFile :: "'r codecs \<Rightarrow> world \<Rightarrow> string \<Rightarrow> error + CacheItem" where
  "readCacheFile L w path =
     (case os_Open w path of
        Inl err \<Rightarrow> Inl err
      | Inr file \<Rightarrow>
          (case file_Read path file of
             Inl err \<Rightarrow> Inl err
           | Inr bs \<Rightarrow>
               (case gzip_NewReader L bs of
                  Inl msg \<Rightarrow> Inl (ErrorString msg)
                | Inr reader \<Rightarrow>
                    (case json_Decode L reader of
                       Inl msg \<Rightarrow> Inl (ErrorString msg)
                     | Inr cacheItem \<Rightarrow> Inr cacheItem))))"

definition getCachePath :: "ProxyCache \<Rightarrow> string \<Rightarrow> string" where
  "getCachePath pc key = filepath_Join (cacheDir pc) (key @ ''.gz'')"

text \<open>
  \<^verbatim>\<open>get\<close> returns \<^verbatim>\<open>([]byte, bool, error)\<close>; \<open>now\<close> is the clock reading of its
  \<^verbatim>\<open>time.Since\<close>. The error of \<^verbatim>\<open>os.Remove\<close> is dropped, as in the source.
\<close>

definition get ::
  "'r codecs \<Rightarrow> ProxyCache \<Rightarrow> world \<Rightarrow> Time \<Rightarrow> string
     \<Rightarrow> world \<times> byte list \<times> bool \<times> error option" where
  "get L pc w now key =
     (let path = getCachePath pc key in
      case readCacheFile L w path of
        Inl err \<Rightarrow>
          if os_IsNotExist err then (w, [], False, None) else (w, [], False, Some err)
      | Inr cacheItem \<Rightarrow>
          if sint (ttl pc) < sint (time_Sub now (Timestamp cacheItem))
          then (snd (os_Remove w path), [], False, None)
          else (w, Data cacheItem, True, None))"

text \<open>
  \<^verbatim>\<open>set\<close> (\<open>set_entry\<close> here: \<open>set\<close> is the set of a list): \<open>now\<close> is the reading
  of its \<^verbatim>\<open>time.Now()\<close>. The deferred
  \<^verbatim>\<open>writer.Close()\<close> runs on every path after \<^verbatim>\<open>os.Create\<close> succeeded, so when
  \<^verbatim>\<open>Encode\<close> fails the file holds the gzip stream of no bytes. \<^verbatim>\<open>set\<close> returns
  what \<^verbatim>\<open>Encode\<close> returns: the error of a write that fails while \<^verbatim>\<open>Encode\<close>
  runs, that is within the first \<open>gzip_Written\<close> bytes of the stream. The errors
  of the deferred \<^verbatim>\<open>writer.Close()\<close> and \<^verbatim>\<open>file.Close()\<close> are dropped, as in the
  source: when a later write fails, \<^verbatim>\<open>set\<close> returns \<^verbatim>\<open>nil\<close> and the file holds
  the bytes written before the failure.
\<close>

definition set_entry ::
  "'r codecs \<Rightarrow> ProxyCache \<Rightarrow> world \<Rightarrow> Time \<Rightarrow> string \<Rightarrow> byte list
     \<Rightarrow> world \<times> error option" where
  "set_entry L pc w now key data =
     (let path = getCachePath pc key in
      case os_Create w path of
        Inl err \<Rightarrow> (w, Some err)
      | Inr w' \<Rightarrow>
          (let cacheItem = \<lparr>Data = data, Timestamp = now\<rparr> in
           case json_Encode L cacheItem of
             Inl msg \<Rightarrow>
               (fst (file_Write_stream w' path (gzip_Writer L [])), Some (ErrorString msg))
           | Inr bs \<Rightarrow>
               (case file_Write_stream w' path (gzip_Writer L bs) of
                  (w'', None) \<Rightarrow> (w'', None)
                | (w'', Some (k, e)) \<Rightarrow>
                    (w'', if k < gzip_Written L bs
                          then Some (PathError ''write'' path e) else None))))"

text \<open>The body of the loop of \<^verbatim>\<open>cleanExpiredCache\<close>, for one directory entry.\<close>

definition cleanExpiredCache_file ::
  "'r codecs \<Rightarrow> ProxyCache \<Rightarrow> Time \<Rightarrow> DirEntry \<Rightarrow> world \<Rightarrow> world" where
  "cleanExpiredCache_file L pc now file w =
     (if IsDir file then w
      else
        let path = filepath_Join (cacheDir pc) (Name file) in
        case readCacheFile L w path of
          Inl err \<Rightarrow>
            log_Printf w (''Error reading cache file '' @ path @ '': '' @ Error err)
        | Inr cacheItem \<Rightarrow>
            if sint (ttl pc) < sint (time_Sub now (Timestamp cacheItem))
            then
              (case os_Remove w path of
                 (Some err, w') \<Rightarrow>
                   log_Printf w'
                     (''Error removing expired cache file '' @ path @ '': '' @ Error err)
               | (None, w') \<Rightarrow>
                   log_Printf w' (''Removed expired cache file: '' @ Name file))
            else w)"

definition cleanExpiredCache ::
  "'r codecs \<Rightarrow> ProxyCache \<Rightarrow> world \<Rightarrow> Time \<Rightarrow> world \<times> error option" where
  "cleanExpiredCache L pc w now =
     (case os_ReadDir w (cacheDir pc) of
        Inl err \<Rightarrow>
          (w, Some (ErrorString (''failed to read cache directory: '' @ Error err)))
      | Inr dirents \<Rightarrow> (fold (cleanExpiredCache_file L pc now) dirents w, None))"

section \<open>The request handler\<close>

text \<open>
  \<^verbatim>\<open>Header.Add\<close> appends a value to the values of a name, \<^verbatim>\<open>Header.Set\<close> replaces
  them. Header names are taken in their canonical form.
\<close>

definition Header_Add :: "header \<Rightarrow> string \<Rightarrow> string \<Rightarrow> header" where
  "Header_Add h key v =
     (case map_of h key of
        None \<Rightarrow> h @ [(key, [v])]
      | Some vs \<Rightarrow> AList.update key (vs @ [v]) h)"

definition Header_Set :: "header \<Rightarrow> string \<Rightarrow> string \<Rightarrow> header" where
  "Header_Set h key v = AList.update key [v] h"

text \<open>
  The two nested range statements that copy every value of every header to \<open>h\<close>
  (lines 200 to 204 and 223 to 227).
\<close>

definition copy_headers :: "header \<Rightarrow> header \<Rightarrow> header" where
  "copy_headers src h =
     fold (\<lambda>(key, vs) h. fold (\<lambda>v h. Header_Add h key v) vs h) src h"

text \<open>
  An \<^verbatim>\<open>http.ResponseWriter\<close>: the header map, the status line once it is written,
  and the body written so far. \<^verbatim>\<open>Write\<close> before any \<^verbatim>\<open>WriteHeader\<close> writes the status
  200 first; a second \<^verbatim>\<open>WriteHeader\<close> changes nothing. Status codes are three-digit
  codes, as \<^verbatim>\<open>WriteHeader\<close> requires.
\<close>

record ResponseWriter =
  rw_header :: header
  rw_status :: "nat option"
  rw_body :: "byte list"

definition new_ResponseWriter :: ResponseWriter where
  "new_ResponseWriter = \<lparr>rw_header = [], rw_status = None, rw_body = []\<rparr>"

definition rw_Set :: "ResponseWriter \<Rightarrow> string \<Rightarrow> string \<Rightarrow> ResponseWriter" where
  "rw_Set rw key v = rw\<lparr>rw_header := Header_Set (rw_header rw) key v\<rparr>"

definition WriteHeader :: "ResponseWriter \<Rightarrow> nat \<Rightarrow> ResponseWriter" where
  "WriteHeader rw code =
     (case rw_status rw of None \<Rightarrow> rw\<lparr>rw_status := Some code\<rparr> | Some c \<Rightarrow> rw)"

definition Write :: "ResponseWriter \<Rightarrow> byte list \<Rightarrow> ResponseWriter" where
  "Write rw bs = (let rw' = WriteHeader rw 200 in rw'\<lparr>rw_body := rw_body rw' @ bs\<rparr>)"

text \<open>\<^verbatim>\<open>http.Error\<close>: a plain-text reply with the given status and the message as a line.\<close>

definition http_Error :: "ResponseWriter \<Rightarrow> string \<Rightarrow> nat \<Rightarrow> ResponseWriter" where
  "http_Error rw msg code =
     Write
       (WriteHeader
          (rw_Set (rw_Set rw ''Content-Type'' ''text/plain; charset=utf-8'')
             ''X-Content-Type-Options'' ''nosniff'')
          code)
       (bytes_of (msg @ [CHR 0x0A]))"

text \<open>
  What the handler reads of the request: the method, the parsed query and the
  headers. \<^verbatim>\<open>Values.Get\<close> is the first value of a name, or the empty string.
\<close>

record Request =
  Method :: string
  Query :: "(string \<times> string list) list"
  Header :: header

definition Values_Get :: "(string \<times> string list) list \<Rightarrow> string \<Rightarrow> string" where
  "Values_Get vs key = (case map_of vs key of Some (v # rest) \<Rightarrow> v | _ \<Rightarrow> [])"

text \<open>
  The upstream server and the HTTP client are outside the program: the outcome of
  the fetch (lines 194 to 217) for a method, a target and the forwarded headers is a
  parameter. It is the failure of \<^verbatim>\<open>http.NewRequest\<close>, of \<^verbatim>\<open>client.Do\<close> or of
  \<^verbatim>\<open>io.ReadAll\<close>, or the status code, headers and body of the response.
\<close>

datatype fetched =
    NewRequestFailed error
  | DoFailed error
  | ReadAllFailed error
  | Response nat header "byte list"

type_synonym upstream = "string \<Rightarrow> string \<Rightarrow> header \<Rightarrow> fetched"

definition StatusBadRequest :: nat where
  "StatusBadRequest = 400"

definition StatusInternalServerError :: nat where
  "StatusInternalServerError = 500"

definition StatusBadGateway :: nat where
  "StatusBadGateway = 502"

text \<open>
  \<^verbatim>\<open>proxyHandler(w, r)\<close>. \<open>now1\<close> is the clock reading inside \<^verbatim>\<open>get\<close>, \<open>now2\<close> the
  one inside \<^verbatim>\<open>set\<close>.
\<close>

definition proxyHandler ::
  "'r codecs \<Rightarrow> ProxyCache \<Rightarrow> upstream \<Rightarrow> Time \<Rightarrow> Time \<Rightarrow> world \<Rightarrow> ResponseWriter
     \<Rightarrow> Request \<Rightarrow> world \<times> ResponseWriter" where
  "proxyHandler L pc client now1 now2 w0 rw r =
     (let targetURL = Values_Get (Query r) ''url'' in
      if targetURL = [] then (w0, http_Error rw ''missing url parameter'' StatusBadRequest)
      else
        let cacheKey = getCacheKey (Method r) targetURL (Header r) in
        case get L pc w0 now1 cacheKey of
          (w1, data, found, Some err) \<Rightarrow>
            (w1, http_Error rw (''cache error: '' @ Error err) StatusInternalServerError)
        | (w1, data, found, None) \<Rightarrow>
            if found then
              (w1, Write (rw_Set (rw_Set rw ''X-Cache'' ''HIT'')
                            ''Content-Type'' ''application/json'') data)
            else
              (case client (Method r) targetURL (copy_headers (Header r) []) of
                 NewRequestFailed err \<Rightarrow>
                   (w1, http_Error rw (''error creating request: '' @ Error err)
                          StatusInternalServerError)
               | DoFailed err \<Rightarrow>
                   (w1, http_Error rw (''proxy request failed: '' @ Error err)
                          StatusBadGateway)
               | ReadAllFailed err \<Rightarrow>
                   (w1, http_Error rw (''error reading response: '' @ Error err)
                          StatusInternalServerError)
               | Response statusCode respHeader body \<Rightarrow>
                   (let (w2, serr) = set_entry L pc w1 now2 cacheKey body;
                        w3 = (case serr of
                                Some err \<Rightarrow>
                                  log_Printf w2 (''error caching response: '' @ Error err)
                              | None \<Rightarrow> w2);
                        rw1 = rw\<lparr>rw_header := copy_headers respHeader (rw_header rw)\<rparr>
                    in (w3, Write (WriteHeader (rw_Set rw1 ''X-Cache'' ''MISS'') statusCode)
                                body))))"

section \<open>Predicates of the statements\<close>

text \<open>
  The codecs read back what they wrote for an item: \<^verbatim>\<open>Encode\<close> succeeds, and the
  gzip stream of its bytes is opened and decoded to the same item.
\<close>

definition codec_roundtrip :: "'r codecs \<Rightarrow> CacheItem \<Rightarrow> bool" where
  "codec_roundtrip L item =
     (case json_Encode L item of
        Inl msg \<Rightarrow> False
      | Inr bs \<Rightarrow>
          (case gzip_NewReader L (gzip_Writer L bs) of
             Inl msg \<Rightarrow> False
           | Inr reader \<Rightarrow> json_Decode L reader = Inr item))"

text \<open>The file at a path is a readable cache entry whose age at \<open>now\<close> is above the TTL.\<close>

definition expired :: "'r codecs \<Rightarrow> ProxyCache \<Rightarrow> world \<Rightarrow> Time \<Rightarrow> string \<Rightarrow> bool" where
  "expired L pc w now path =
     (case readCacheFile L w path of
        Inl err \<Rightarrow> False
      | Inr cacheItem \<Rightarrow> sint (ttl pc) < sint (time_Sub now (Timestamp cacheItem)))"

text \<open>
  The loop of \<^verbatim>\<open>cleanExpiredCache\<close> deletes the file of a directory entry: the entry
  is not a directory, its file is an expired cache entry, and \<^verbatim>\<open>os.Remove\<close> does not
  fail on it. \<open>swept\<close> says the same of a path directly under the cache directory.
\<close>

definition removes :: "'r codecs \<Rightarrow> ProxyCache \<Rightarrow> Time \<Rightarrow> world \<Rightarrow> DirEntry \<Rightarrow> bool" where
  "removes L pc now w d \<longleftrightarrow>
     \<not> IsDir d \<and> expired L pc w now (filepath_Join (cacheDir pc) (Name d))
     \<and> faults w SysRemove (filepath_Join (cacheDir pc) (Name d)) = None"

definition swept :: "'r codecs \<Rightarrow> ProxyCache \<Rightarrow> world \<Rightarrow> Time \<Rightarrow> string \<Rightarrow> bool" where
  "swept L pc w now p \<longleftrightarrow>
     is_child (cacheDir pc) p \<and> expired L pc w now p \<and> faults w SysRemove p = None"

section \<open>A reference instance of the codecs\<close>

text \<open>
  One instance of the codec parameters, for running the model on concrete files. Its
  writer emits what the formats prescribe: the JSON text of \<^verbatim>\<open>Encode\<close> with the
  payload in base64 and the timestamp in RFC 3339 (in UTC), inside a gzip file whose
  DEFLATE blocks are stored ones. Its reader reads these files: a gzip header without
  optional fields, stored blocks, and the JSON object in the form the writer emits.
  The statements below hold for every instance; this one shows that their
  hypotheses can be met.
\<close>

definition encodeStd :: string where
  "encodeStd = ''ABCDEFGHIJKLMNOPQRSTUVWXYZabcdefghijklmnopqrstuvwxyz0123456789+/''"

definition b64_char :: "byte \<Rightarrow> char" where
  "b64_char x = encodeStd ! unat x"

fun base64_Encode :: "byte list \<Rightarrow> string" where
  "base64_Encode [] = []"
| "base64_Encode [a] =
     [b64_char (drop_bit 2 a), b64_char (push_bit 4 (a AND 0x03)), CHR ''='', CHR ''='']"
| "base64_Encode [a, b] =
     [b64_char (drop_bit 2 a), b64_char (push_bit 4 (a AND 0x03) OR drop_bit 4 b),
      b64_char (push_bit 2 (b AND 0x0f)), CHR ''='']"
| "base64_Encode (a # b # c # rest) =
     [b64_char (drop_bit 2 a), b64_char (push_bit 4 (a AND 0x03) OR drop_bit 4 b),
      b64_char (push_bit 2 (b AND 0x0f) OR drop_bit 6 c), b64_char (c AND 0x3f)]
     @ base64_Encode rest"

fun index_of :: "'a \<Rightarrow> 'a list \<Rightarrow> nat option" where
  "index_of x [] = None"
| "index_of x (y # ys) = (if x = y then Some 0 else map_option Suc (index_of x ys))"

definition b64_value :: "char \<Rightarrow> byte option" where
  "b64_value c = map_option of_nat (index_of c encodeStd)"

fun base64_Decode :: "string \<Rightarrow> byte list option" where
  "base64_Decode [] = Some []"
| "base64_Decode (c1 # c2 # c3 # c4 # rest) =
     (case (b64_value c1, b64_value c2) of
        (Some v1, Some v2) \<Rightarrow>
          (let b1 = push_bit 2 v1 OR drop_bit 4 v2 in
           if c3 = CHR ''='' then
             (if c4 = CHR ''='' \<and> rest = [] then Some [b1] else None)
           else
             (case b64_value c3 of
                None \<Rightarrow> None
              | Some v3 \<Rightarrow>
                  (let b2 = push_bit 4 v2 OR drop_bit 2 v3 in
                   if c4 = CHR ''='' then (if rest = [] then Some [b1, b2] else None)
                   else
                     (case b64_value c4 of
                        None \<Rightarrow> None
                      | Some v4 \<Rightarrow>
                          map_option (\<lambda>bs. b1 # b2 # (push_bit 6 v3 OR v4) # bs)
                            (base64_Decode rest)))))
      | _ \<Rightarrow> None)"
| "base64_Decode _ = None"


text \<open>Calendar dates of the proleptic Gregorian calendar, from days since 1970-01-01.\<close>

definition civil_from_days :: "int \<Rightarrow> int \<times> int \<times> int" where
  "civil_from_days z0 =
     (let z = z0 + 719468;
          era = z div 146097;
          doe = z - era * 146097;
          yoe = (doe - doe div 1460 + doe div 36524 - doe div 146096) div 365;
          doy = doe - (365 * yoe + yoe div 4 - yoe div 100);
          mp = (5 * doy + 2) div 153;
          d = doy - (153 * mp + 2) div 5 + 1;
          m = (if mp < 10 then mp + 3 else mp - 9);
          y = yoe + era * 400 + (if m \<le> 2 then 1 else 0)
      in (y, m, d))"

definition days_from_civil :: "int \<Rightarrow> int \<Rightarrow> int \<Rightarrow> int" where
  "days_from_civil y0 m d =
     (let y = (if m \<le> 2 then y0 - 1 else y0);
          era = y div 400;
          yoe = y - era * 400;
          doy = (153 * (if 2 < m then m - 3 else m + 9) + 2) div 5 + d - 1;
          doe = yoe * 365 + yoe div 4 - yoe div 100 + doy
      in era * 146097 + doe - 719468)"

fun digits :: "nat \<Rightarrow> int \<Rightarrow> string" where
  "digits 0 v = []"
| "digits (Suc n) v = digits n (v div 10) @ [char_of (48 + v mod 10)]"

fun strip_zeros :: "string \<Rightarrow> string" where
  "strip_zeros s = rev (dropWhile (\<lambda>c. c = CHR ''0'') (rev s))"

text \<open>
  The layout \<^verbatim>\<open>time.RFC3339Nano\<close> for a time in UTC; \<^verbatim>\<open>Time.MarshalJSON\<close> refuses a
  year outside 0 to 9999.
\<close>

definition format_RFC3339Nano :: "Time \<Rightarrow> string option" where
  "format_RFC3339Nano t =
     (let secs = t div 1000000000;
          nsec = t mod 1000000000;
          (y, m, d) = civil_from_days (secs div 86400);
          sod = secs mod 86400
      in if y < 0 \<or> 9999 < y then None
         else Some (digits 4 y @ ''-'' @ digits 2 m @ ''-'' @ digits 2 d @ ''T''
                @ digits 2 (sod div 3600) @ '':'' @ digits 2 (sod mod 3600 div 60) @ '':''
                @ digits 2 (sod mod 60)
                @ (if nsec = 0 then [] else ''.'' @ strip_zeros (digits 9 nsec))
                @ ''Z''))"

fun digit_value :: "char \<Rightarrow> int option" where
  "digit_value c =
     (if CHR ''0'' \<le> c \<and> c \<le> CHR ''9'' then Some (of_char c - 48) else None)"

fun number :: "int \<Rightarrow> string \<Rightarrow> int option" where
  "number acc [] = Some acc"
| "number acc (c # cs) =
     (case digit_value c of None \<Rightarrow> None | Some v \<Rightarrow> number (10 * acc + v) cs)"

definition parse_number :: "string \<Rightarrow> int option" where
  "parse_number s = (if s = [] then None else number 0 s)"

definition parse_fraction :: "string \<Rightarrow> int option" where
  "parse_fraction s =
     (case s of
        [] \<Rightarrow> Some 0
      | c # ds \<Rightarrow>
          if c = CHR ''.'' \<and> ds \<noteq> [] \<and> length ds \<le> 9
          then number 0 (ds @ replicate (9 - length ds) (CHR ''0''))
          else None)"

definition parse_RFC3339 :: "string \<Rightarrow> Time option" where
  "parse_RFC3339 s =
     (if length s < 20 \<or> last s \<noteq> CHR ''Z'' \<or> s ! 4 \<noteq> CHR ''-'' \<or> s ! 7 \<noteq> CHR ''-''
         \<or> s ! 10 \<noteq> CHR ''T'' \<or> s ! 13 \<noteq> CHR '':'' \<or> s ! 16 \<noteq> CHR '':'' then None
      else
        (case (parse_number (take 4 s), parse_number (take 2 (drop 5 s)),
               parse_number (take 2 (drop 8 s)), parse_number (take 2 (drop 11 s)),
               parse_number (take 2 (drop 14 s)), parse_number (take 2 (drop 17 s)),
               parse_fraction (butlast (drop 19 s))) of
           (Some y, Some m, Some d, Some hh, Some mm, Some ss, Some nsec) \<Rightarrow>
             if 1 \<le> m \<and> m \<le> 12 \<and> 1 \<le> d \<and> d \<le> 31 \<and> hh < 24 \<and> mm < 60 \<and> ss < 60
             then Some (((days_from_civil y m d * 24 + hh) * 60 + mm) * 60 * 1000000000
                        + ss * 1000000000 + nsec)
             else None
         | _ \<Rightarrow> None))"


text \<open>The text that \<^verbatim>\<open>Encoder.Encode\<close> writes for a \<^verbatim>\<open>CacheItem\<close>, and its reading.\<close>

definition json_Encode_ref :: "CacheItem \<Rightarrow> string + byte list" where
  \<open>json_Encode_ref item =
     (case format_RFC3339Nano (Timestamp item) of
        None \<Rightarrow>
          Inl (''json: error calling MarshalJSON for type time.Time: ''
               @ ''Time.MarshalJSON: year outside of range [0,9999]'')
      | Some ts \<Rightarrow>
          Inr (bytes_of (''{"data":"'' @ base64_Encode (Data item) @ ''","timestamp":"'' @ ts
                 @ ''"}'' @ [CHR 0x0A])))\<close>

definition strip_prefix :: "'a list \<Rightarrow> 'a list \<Rightarrow> 'a list option" where
  "strip_prefix p s = (if take (length p) s = p then Some (drop (length p) s) else None)"

definition parse_item :: "string \<Rightarrow> CacheItem option" where
  \<open>parse_item s =
     (case strip_prefix ''{"data":"'' s of
        None \<Rightarrow> None
      | Some s1 \<Rightarrow>
          (case strip_prefix ''","timestamp":"'' (dropWhile (\<lambda>c. c \<noteq> CHR 0x22) s1) of
             None \<Rightarrow> None
           | Some s2 \<Rightarrow>
               (case strip_prefix ''"}'' (dropWhile (\<lambda>c. c \<noteq> CHR 0x22) s2) of
                  None \<Rightarrow> None
                | Some s3 \<Rightarrow>
                    (case (base64_Decode (takeWhile (\<lambda>c. c \<noteq> CHR 0x22) s1),
                           parse_RFC3339 (takeWhile (\<lambda>c. c \<noteq> CHR 0x22) s2)) of
                       (Some d, Some t) \<Rightarrow> Some \<lparr>Data = d, Timestamp = t\<rparr>
                     | _ \<Rightarrow> None))))\<close>

text \<open>
  A reader holds the bytes that decompress before the stream ends or fails, and the
  failure if there is one. Decoding an empty stream is \<^verbatim>\<open>io.EOF\<close>.
\<close>

type_synonym reader = "byte list \<times> string option"

definition json_Decode_ref :: "reader \<Rightarrow> string + CacheItem" where
  "json_Decode_ref r =
     (case parse_item (map (\<lambda>b. char_of (unat b)) (fst r)) of
        Some item \<Rightarrow> Inr item
      | None \<Rightarrow>
          (case snd r of
             Some msg \<Rightarrow> Inl msg
           | None \<Rightarrow> if fst r = [] then Inl ''EOF'' else Inl ''invalid character''))"

text \<open>
  The gzip container of RFC 1952 around DEFLATE blocks of the stored kind: the
  ten-byte header that \<^verbatim>\<open>gzip.Writer\<close> emits, the blocks, the CRC-32 and the length.
\<close>

definition crc32_byte :: "32 word \<Rightarrow> byte \<Rightarrow> 32 word" where
  "crc32_byte c b =
     fold (\<lambda>i c. if bit c 0 then drop_bit 1 c XOR 0xEDB88320 else drop_bit 1 c)
       [0..<8] (c XOR ucast b)"

definition crc32 :: "byte list \<Rightarrow> 32 word" where
  "crc32 bs = NOT (fold (\<lambda>b c. crc32_byte c b) bs 0xFFFFFFFF)"

definition le_bytes :: "nat \<Rightarrow> 'a::len word \<Rightarrow> byte list" where
  "le_bytes n w = rev (be_bytes n w)"

definition gzip_header :: "byte list" where
  "gzip_header = [0x1f, 0x8b, 0x08, 0, 0, 0, 0, 0, 0, 0xff]"

function deflate_stored :: "byte list \<Rightarrow> byte list" where
  "deflate_stored bs =
     (if int (length bs) \<le> 65535
      then [0x01] @ le_bytes 2 (word_of_nat (length bs) :: 16 word)
             @ le_bytes 2 (NOT (word_of_nat (length bs)) :: 16 word) @ bs
      else [0x00, 0xff, 0xff, 0x00, 0x00] @ take 65535 bs @ deflate_stored (drop 65535 bs))"
  by pat_completeness auto
termination
  by (relation "measure length") auto

declare deflate_stored.simps [simp del]

definition gzip_Writer_ref :: "byte list \<Rightarrow> byte list" where
  "gzip_Writer_ref bs =
     gzip_header @ deflate_stored bs @ le_bytes 4 (crc32 bs)
       @ le_bytes 4 (word_of_nat (length bs) :: 32 word)"

fun inflate_stored :: "byte list \<Rightarrow> byte list \<Rightarrow> byte list \<times> byte list \<times> string option" where
  "inflate_stored out (h # l0 # l1 # n0 # n1 # rest) =
     (let len = unat l0 + 256 * unat l1 in
      if h AND 0x06 \<noteq> 0 \<or> NOT l0 \<noteq> n0 \<or> NOT l1 \<noteq> n1
      then (out, [], Some ''flate: corrupt input'')
      else if length rest < len then (out @ rest, [], Some ''unexpected EOF'')
      else if bit h 0 then (out @ take len rest, drop len rest, None)
      else inflate_stored (out @ take len rest) (drop len rest))"
| "inflate_stored out bs = (out, [], Some ''unexpected EOF'')"

definition gzip_NewReader_ref :: "byte list \<Rightarrow> string + reader" where
  "gzip_NewReader_ref bs =
     (if bs = [] then Inl ''EOF''
      else if length bs < 10 then Inl ''unexpected EOF''
      else if take 3 bs \<noteq> [0x1f, 0x8b, 0x08] then Inl ''gzip: invalid header''
      else if bs ! 3 \<noteq> 0 then Inl ''gzip: header with optional fields''
      else
        (case inflate_stored [] (drop 10 bs) of
           (out, rest, Some msg) \<Rightarrow> Inr (out, Some msg)
         | (out, rest, None) \<Rightarrow>
             if length rest < 8 then Inr (out, Some ''unexpected EOF'')
             else if take 8 rest
                       \<noteq> le_bytes 4 (crc32 out) @ le_bytes 4 (word_of_nat (length out) :: 32 word)
             then Inr (out, Some ''gzip: invalid checksum'')
             else Inr (out, None)))"

text \<open>
  A \<^verbatim>\<open>gzip.Writer\<close> writes its header to the file on the first \<^verbatim>\<open>Write\<close>; the
  reference writer puts out the blocks, the CRC-32 and the length when it is closed.
\<close>

definition gzip_Written_ref :: "byte list \<Rightarrow> nat" where
  "gzip_Written_ref bs = length gzip_header"

definition refcodecs :: "reader codecs" where
  "refcodecs =
     \<lparr>gzip_NewReader = gzip_NewReader_ref, json_Decode = json_Decode_ref,
      json_Encode = json_Encode_ref, gzip_Writer = gzip_Writer_ref,
      gzip_Written = gzip_Written_ref\<rparr>"

section \<open>Example data\<close>

text \<open>
  A cache with a TTL of 60 seconds, a request for \<^verbatim>\<open>/proxy?url=http://a\<close>, an upstream
  that answers it, and cache files as the reference codecs write them. The payload
  \<^verbatim>\<open>hi\<close> stored at 2024-11-03T13:20:00.123456Z is \<open>item0\<close>, the payload \<^verbatim>\<open>ok\<close>
  stored 100 seconds later is \<open>item1\<close>.
\<close>

definition pc0 :: ProxyCache where
  "pc0 = \<lparr>cacheDir = ''cache'', ttl = cacheTTL 60\<rparr>"

definition no_faults :: "syscall \<Rightarrow> string \<Rightarrow> errno option" where
  "no_faults call path = None"

definition time0 :: Time where
  "time0 = 1730640000123456000"

definition item0 :: CacheItem where
  "item0 = \<lparr>Data = [0x68, 0x69], Timestamp = time0\<rparr>"

definition json0 :: "byte list" where
  \<open>json0 = bytes_of
     (''{"data":"aGk=","timestamp":"2024-11-03T13:20:00.123456Z"}'' @ [CHR 0x0A])\<close>

definition file0 :: "byte list" where
  "file0 = gzip_Writer refcodecs json0"

definition item1 :: CacheItem where
  "item1 = \<lparr>Data = [0x6f, 0x6b], Timestamp = time0 + 100000000000\<rparr>"

definition json1 :: "byte list" where
  \<open>json1 = bytes_of
     (''{"data":"b2s=","timestamp":"2024-11-03T13:21:40.123456Z"}'' @ [CHR 0x0A])\<close>

definition file1 :: "byte list" where
  "file1 = gzip_Writer refcodecs json1"

text \<open>A gzip file cut off inside its header.\<close>

definition truncated :: "byte list" where
  "truncated = [0x1f, 0x8b, 0x08, 0x00]"

definition req0 :: Request where
  "req0 = \<lparr>Method = ''GET'', Query = [(''url'', [''http://a''])], Header = []\<rparr>"

definition key0 :: string where
  "key0 = ''e1aa049fdef91366a85f06e2cb75e45539ef826f59df1073ba3f2128fcdfebb7''"

definition client0 :: upstream where
  "client0 method url h = Response 200 [(''Content-Type'', [''text/plain''])] [0x68, 0x69]"

definition world_empty :: world where
  "world_empty = \<lparr>files = [], faults = no_faults, logged = []\<rparr>"

definition world_hit :: world where
  "world_hit = \<lparr>files = [(getCachePath pc0 key0, File file0)], faults = no_faults, logged = []\<rparr>"

definition world_truncated :: world where
  "world_truncated =
     \<lparr>files = [(getCachePath pc0 key0, File truncated)], faults = no_faults, logged = []\<rparr>"

text \<open>
  A cache directory on a disk with room for the ten bytes of a gzip header, and what
  \<^verbatim>\<open>set\<close> leaves in it.
\<close>

definition world_full :: world where
  "world_full =
     \<lparr>files = [],
      faults = (\<lambda>call path. case call of
                  SysWrite n \<Rightarrow> if 10 \<le> n then Some ENOSPC else None
                | _ \<Rightarrow> None),
      logged = []\<rparr>"

definition world_cut :: world where
  "world_cut = world_full\<lparr>files := [(getCachePath pc0 key0, File gzip_header)]\<rparr>"

text \<open>A cache directory in which no file can be created.\<close>

definition world_readonly :: world where
  "world_readonly =
     \<lparr>files = [], faults = (\<lambda>call path. if call = SysCreate then Some EROFS else None),
      logged = []\<rparr>"

text \<open>
  A cache directory with an old entry, a recent entry, a truncated file, a
  subdirectory, and an old entry that cannot be deleted.
\<close>

definition world_sweep :: world where
  "world_sweep =
     \<lparr>files = [(''cache/a.gz'', File file0), (''cache/b.gz'', File file1),
               (''cache/c.gz'', File truncated), (''cache/d'', Dir),
               (''cache/e.gz'', File file0)],
      faults = (\<lambda>call path.
                  if call = SysRemove \<and> path = ''cache/e.gz'' then Some EACCES else None),
      logged = []\<rparr>"

section \<open>Properties of the key derivation\<close>

lemma map_of_update: "map_of (AList.update k v al) k' = (if k' = k then Some v else map_of al k')"
  by (simp add: update_conv')

lemma map_of_delete: "map_of (AList.delete k al) k' = (if k' = k then None else map_of al k')"
  by (simp add: delete_conv')









text \<open>
  The model of SHA-256 on a request of the example data: the key of
  \<^verbatim>\<open>GET http://a\<close> is the hexadecimal SHA-256 digest of the bytes \<^verbatim>\<open>GEThttp://a\<close>.
\<close>

lemma getCacheKey_req0: "getCacheKey ''GET'' ''http://a'' h = key0"
  unfolding getCacheKey_def key0_def by code_simp















text \<open>
  Claim C10. The headers never influence the cache key: for any two header maps the
  key is the same, and so is the cache file the handler looks up and writes.
\<close>

theorem getCacheKey_ignores_headers:
  "getCacheKey method url H1 = getCacheKey method url H2
   \<and> getCachePath pc (getCacheKey method url H1) = getCachePath pc (getCacheKey method url H2)"
  by (simp add: getCacheKey_def)

section \<open>Properties of the reference codecs\<close>

text \<open>
  The reference gzip reader reads back what the reference writer wrote, for a
  payload that fits one stored block.
\<close>

lemma le_bytes_2: "le_bytes 2 (w :: 16 word) = [ucast w, ucast (drop_bit 8 w)]"
  by (simp add: le_bytes_def be_bytes_def upt_rec [of 0] upt_rec [of 1] numeral_2_eq_2)

lemma length_le_bytes: "length (le_bytes n w) = n"
  by (simp add: le_bytes_def be_bytes_def)

lemma not_lo: "NOT (ucast (w :: 16 word) :: byte) = ucast (NOT w)"
  by (rule bit_word_eqI) (simp add: bit_not_iff bit_ucast_iff)

lemma not_hi: "NOT (ucast (drop_bit 8 (w :: 16 word)) :: byte) = ucast (drop_bit 8 (NOT w))"
  by (rule bit_word_eqI) (simp add: bit_not_iff bit_ucast_iff bit_drop_bit_eq)

lemma unat_split16: "unat (ucast (w :: 16 word) :: byte) + 256 * unat (ucast (drop_bit 8 w) :: byte) = unat w"
proof -
  have a: "unat (ucast w :: byte) = unat w mod 256"
    by (simp add: unsigned_ucast_eq take_bit_eq_mod)
  have "unat (drop_bit 8 w) = drop_bit 8 (unat w)"
    by (simp only: unat_drop_bit_eq)
  also have "\<dots> = unat w div 2 ^ 8"
    by (rule drop_bit_eq_div)
  finally have "unat (drop_bit 8 w) = unat w div 256"
    by simp
  moreover have "unat w < 2 ^ 16"
    using unsigned_less [of w] by simp
  then have "unat w div 256 < 256"
    by simp
  ultimately have b: "unat (ucast (drop_bit 8 w) :: byte) = unat w div 256"
    by (simp only: unsigned_ucast_eq take_bit_eq_mod) simp
  show ?thesis unfolding a b by simp
qed

lemma unat_word_of_nat_16: "n \<le> 65535 \<Longrightarrow> unat (word_of_nat n :: 16 word) = n"
  by (simp add: unat_of_nat)

lemma deflate_stored_one_block:
  assumes "length bs \<le> 65535"
  shows "deflate_stored bs =
           0x01 # ucast (word_of_nat (length bs) :: 16 word)
           # ucast (drop_bit 8 (word_of_nat (length bs) :: 16 word))
           # ucast (NOT (word_of_nat (length bs) :: 16 word))
           # ucast (drop_bit 8 (NOT (word_of_nat (length bs) :: 16 word))) # bs"
  using assms by (subst deflate_stored.simps) (simp only: le_bytes_2, simp)


lemma inflate_deflate_stored:
  assumes "length bs \<le> 65535"
  shows "inflate_stored [] (deflate_stored bs @ rest) = (bs, rest, None)"
proof -
  let ?w = "word_of_nat (length bs) :: 16 word"
  have len: "unat (ucast ?w :: byte) + 256 * unat (ucast (drop_bit 8 ?w) :: byte) = length bs"
    using assms by (simp only: unat_split16 unat_word_of_nat_16)
  have h: "(0x01 :: byte) AND 0x06 = 0" "bit (0x01 :: byte) 0"
    by simp_all
  have c: "NOT (ucast ?w :: byte) = ucast (NOT ?w)"
    "NOT (ucast (drop_bit 8 ?w) :: byte) = ucast (drop_bit 8 (NOT ?w))"
    by (rule not_lo, rule not_hi)
  show ?thesis
    unfolding deflate_stored_one_block [OF assms] append_Cons inflate_stored.simps Let_def len c
    by (simp only: h) simp
qed


lemma gzip_Writer_ref_shape:
  "gzip_Writer_ref bs =
     0x1f # 0x8b # 0x08 # 0 # 0 # 0 # 0 # 0 # 0 # 0xff
       # (deflate_stored bs @ le_bytes 4 (crc32 bs)
            @ le_bytes 4 (word_of_nat (length bs) :: 32 word))"
  unfolding gzip_Writer_ref_def gzip_header_def by (simp only: append_Cons append_Nil)

lemma gzip_ref_roundtrip:
  assumes "length bs \<le> 65535"
  shows "gzip_NewReader_ref (gzip_Writer_ref bs) = Inr (bs, None)"
  unfolding gzip_NewReader_ref_def gzip_Writer_ref_shape
  by (simp add: inflate_deflate_stored [OF assms] length_le_bytes del: deflate_stored.simps)

text \<open>The cache files of the example data, and what they decode to.\<close>

lemma json_Encode_item0: "json_Encode refcodecs item0 = Inr json0"
  unfolding item0_def time0_def by code_simp

lemma json_Decode_json0: "json_Decode refcodecs (json0, None) = Inr item0"
  unfolding item0_def time0_def by code_simp

lemma json_Encode_item1: "json_Encode refcodecs item1 = Inr json1"
  unfolding item1_def time0_def by code_simp

lemma json_Decode_json1: "json_Decode refcodecs (json1, None) = Inr item1"
  unfolding item1_def time0_def by code_simp

lemma gzip_NewReader_file0: "gzip_NewReader refcodecs file0 = Inr (json0, None)"
proof -
  have "length json0 \<le> 65535"
    by (simp add: json0_def bytes_of_def)
  then show ?thesis
    by (simp add: refcodecs_def file0_def gzip_ref_roundtrip)
qed

lemma gzip_NewReader_file1: "gzip_NewReader refcodecs file1 = Inr (json1, None)"
proof -
  have "length json1 \<le> 65535"
    by (simp add: json1_def bytes_of_def)
  then show ?thesis
    by (simp add: refcodecs_def file1_def gzip_ref_roundtrip)
qed

lemma gzip_NewReader_truncated: "gzip_NewReader refcodecs truncated = Inl ''unexpected EOF''"
  by (simp add: refcodecs_def gzip_NewReader_ref_def truncated_def)

lemma codec_roundtrip_item0: "codec_roundtrip refcodecs item0"
  using gzip_NewReader_file0
  by (simp add: codec_roundtrip_def json_Encode_item0 json_Decode_json0 file0_def)

section \<open>Properties of durations\<close>

text \<open>
  \<^verbatim>\<open>Time.Sub\<close> read as an integer, and the TTL that \<^verbatim>\<open>main\<close> configures: a multiple of
  \<^verbatim>\<open>time.Second\<close> is even, so it is never the largest duration, and for such a TTL the
  comparison with the saturated difference is the comparison with the difference.
\<close>

lemma sint_maxDuration: "sint (word_of_int maxDuration :: 64 word) = maxDuration"
  by (simp add: maxDuration_def)

lemma sint_minDuration: "sint (word_of_int minDuration :: 64 word) = minDuration"
  by (simp add: minDuration_def)


lemma sint_word_of_int_Duration:
  "minDuration \<le> k \<Longrightarrow> k \<le> maxDuration \<Longrightarrow> sint (word_of_int k :: 64 word) = k"
  by (simp add: sint_sbintrunc' signed_take_bit_int_eq_self minDuration_def maxDuration_def)

lemma sint_time_Sub:
  "sint (time_Sub t u) =
     (if maxDuration < t - u then maxDuration
      else if t - u < minDuration then minDuration else t - u)"
proof -
  have "sint (word_of_int (t - u) :: 64 word) = t - u"
    if "minDuration \<le> t - u" "t - u \<le> maxDuration"
    using that by (rule sint_word_of_int_Duration)
  then show ?thesis
    unfolding time_Sub_def
    by (auto simp only: sint_maxDuration sint_minDuration not_less split: if_splits)
qed



lemma sint_ttl_pc0: "sint (ttl pc0) = 60000000000"
  by (simp add: pc0_def cacheTTL_def Second_def)

section \<open>Properties of \<^verbatim>\<open>get\<close> and \<^verbatim>\<open>set\<close>\<close>

lemma write_fault_None:
  assumes "\<And>n. faults w (SysWrite n) path = None"
  shows "write_fault w path m = None"
proof -
  have "find (\<lambda>k. faults w (SysWrite k) path \<noteq> None) [0..<m] = None"
    unfolding find_None_iff by (simp add: assms)
  then show ?thesis
    by (simp only: write_fault_def option.case)
qed

lemma faults_os_Create: "os_Create w path = Inr w' \<Longrightarrow> faults w' = faults w"
  by (auto simp: os_Create_def split: option.splits node.splits)

text \<open>
  Without a failing write, a \<^verbatim>\<open>set\<close> that returns \<^verbatim>\<open>nil\<close> leaves the whole gzip
  stream of the encoded item at the key's path.
\<close>

lemma set_entry_ok:
  assumes "set_entry L pc w t key P = (w', None)"
    and "\<And>n. faults w (SysWrite n) (getCachePath pc key) = None"
  shows "\<exists>bs. json_Encode L \<lparr>Data = P, Timestamp = t\<rparr> = Inr bs
            \<and> map_of (files w') (getCachePath pc key) = Some (File (gzip_Writer L bs))
            \<and> faults w' = faults w \<and> logged w' = logged w"
proof -
  obtain w1 where c: "os_Create w (getCachePath pc key) = Inr w1"
    using assms(1) by (cases "os_Create w (getCachePath pc key)") (simp_all add: set_entry_def)
  have f: "faults w1 = faults w" and l: "logged w1 = logged w"
    using c by (auto simp: os_Create_def split: option.splits node.splits)
  have nf: "write_fault w1 (getCachePath pc key) m = None" for m
    by (rule write_fault_None) (simp add: f assms(2))
  obtain bs where e: "json_Encode L \<lparr>Data = P, Timestamp = t\<rparr> = Inr bs"
    using assms(1) c
    by (cases "json_Encode L \<lparr>Data = P, Timestamp = t\<rparr>") (simp_all add: set_entry_def Let_def)
  have "w' = file_Write w1 (getCachePath pc key) (gzip_Writer L bs)"
    using assms(1) by (simp add: set_entry_def Let_def c e file_Write_stream_def nf)
  then show ?thesis
    using e f l by (simp add: file_Write_def map_of_update)
qed

text \<open>
  The round trip without faults: when \<^verbatim>\<open>set\<close> returns \<^verbatim>\<open>nil\<close> at the clock
  reading \<open>t\<close>, no write to the file fails, the codecs read back what they wrote
  for the item, opening the file does not fail and the age \<open>now - t\<close> is within the
  TTL, then the stored entry is the payload with the timestamp \<open>t\<close>, and \<^verbatim>\<open>get\<close>
  returns the payload as a hit. That the codecs are inverse is a property of
  \<^verbatim>\<open>compress/gzip\<close> and \<^verbatim>\<open>encoding/json\<close>; it is assumed here, not proved.
\<close>

lemma set_then_get_without_fault:
  assumes "set_entry L pc w t key P = (w', None)"
    and "\<And>n. faults w (SysWrite n) (getCachePath pc key) = None"
    and "codec_roundtrip L \<lparr>Data = P, Timestamp = t\<rparr>"
    and "faults w SysOpen (getCachePath pc key) = None"
    and "sint (time_Sub now t) \<le> sint (ttl pc)"
  shows "readCacheFile L w' (getCachePath pc key) = Inr \<lparr>Data = P, Timestamp = t\<rparr>
         \<and> get L pc w' now key = (w', P, True, None)"
proof -
  from set_entry_ok [OF assms(1,2)] obtain bs where
    enc: "json_Encode L \<lparr>Data = P, Timestamp = t\<rparr> = Inr bs" and
    stored: "map_of (files w') (getCachePath pc key) = Some (File (gzip_Writer L bs))" and
    flt: "faults w' = faults w"
    by blast
  from assms(3) enc obtain reader where
    rd: "gzip_NewReader L (gzip_Writer L bs) = Inr reader" and
    dec: "json_Decode L reader = Inr \<lparr>Data = P, Timestamp = t\<rparr>"
    by (auto simp: codec_roundtrip_def split: sum.splits)
  have r: "readCacheFile L w' (getCachePath pc key) = Inr \<lparr>Data = P, Timestamp = t\<rparr>"
    by (simp add: readCacheFile_def os_Open_def flt assms(4) stored rd dec)
  moreover have "get L pc w' now key = (w', P, True, None)"
    using assms(5) by (simp add: get_def r Let_def)
  ultimately show ?thesis by simp
qed

lemma set_entry_world_empty:
  "set_entry refcodecs pc0 world_empty time0 key0 [0x68, 0x69] = (world_hit, None)"
proof -
  have "write_fault (world_empty\<lparr>files := fs\<rparr>) path m = None" for fs path m
    by (rule write_fault_None) (simp add: world_empty_def no_faults_def)
  then show ?thesis
    using json_Encode_item0
    by (simp add: set_entry_def os_Create_def file_Write_stream_def file_Write_def
          world_empty_def world_hit_def no_faults_def item0_def file0_def Let_def)
qed

text \<open>
  When a write fails, \<^verbatim>\<open>set\<close> returns the error only if the write was made while
  \<^verbatim>\<open>Encode\<close> ran; a write that fails in the deferred \<^verbatim>\<open>writer.Close()\<close> leaves a
  cut file and \<^verbatim>\<open>set\<close> returns \<^verbatim>\<open>nil\<close>.
\<close>

lemma set_entry_write_fault:
  assumes "os_Create w (getCachePath pc key) = Inr w1"
    and "json_Encode L \<lparr>Data = P, Timestamp = t\<rparr> = Inr bs"
    and "write_fault w (getCachePath pc key) (length (gzip_Writer L bs)) = Some (k, e)"
  shows "set_entry L pc w t key P =
           (file_Write w1 (getCachePath pc key) (take k (gzip_Writer L bs)),
            if k < gzip_Written L bs then Some (PathError ''write'' (getCachePath pc key) e)
            else None)"
proof -
  have "write_fault w1 (getCachePath pc key) m = write_fault w (getCachePath pc key) m" for m
    unfolding write_fault_def faults_os_Create [OF assms(1)] by (rule refl)
  then show ?thesis
    by (simp add: set_entry_def Let_def assms file_Write_stream_def)
qed

lemma write_fault_world_full:
  assumes "10 < m" and "faults w = faults world_full"
  shows "write_fault w path m = Some (10, ENOSPC)"
proof -
  have "find (\<lambda>k. faults w (SysWrite k) path \<noteq> None) [0..<m] = Some 10"
    using assms by (auto simp: find_Some_iff world_full_def intro!: exI [of _ 10])
  then show ?thesis
    by (simp add: write_fault_def assms(2) world_full_def)
qed

lemma length_gzip_Writer_ref: "10 < length (gzip_Writer_ref bs)"
  by (simp add: gzip_Writer_ref_def gzip_header_def length_le_bytes)

lemma take_gzip_Writer_ref: "take 10 (gzip_Writer_ref bs) = gzip_header"
  by (simp add: gzip_Writer_ref_def gzip_header_def)

lemma gzip_NewReader_gzip_header:
  "gzip_NewReader refcodecs gzip_header = Inr ([], Some ''unexpected EOF'')"
  by (simp add: refcodecs_def gzip_NewReader_ref_def gzip_header_def)

lemma json_Decode_cut: "json_Decode refcodecs ([], Some ''unexpected EOF'') = Inl ''unexpected EOF''"
  by code_simp

text \<open>
  Claim C1. \<^verbatim>\<open>set\<close> followed by \<^verbatim>\<open>get\<close> within the TTL is to return the payload
  that was stored. \<^verbatim>\<open>set\<close> returns the error of \<^verbatim>\<open>Encode\<close> but drops the errors
  of the deferred \<^verbatim>\<open>writer.Close()\<close> and \<^verbatim>\<open>file.Close()\<close>, and a gzip writer passes
  the blocks and the trailer of a short payload to the file only when it is closed.
  On a disk that is full after the ten bytes of the gzip header, \<^verbatim>\<open>set\<close> of the
  payload \<^verbatim>\<open>hi\<close> returns \<^verbatim>\<open>nil\<close> over a file that holds the header only, and the
  \<^verbatim>\<open>get\<close> that follows one second later returns the error \<^verbatim>\<open>unexpected EOF\<close>
  and no payload.
\<close>

theorem set_nil_over_cut_file:
  "set_entry refcodecs pc0 world_full time0 key0 [0x68, 0x69] = (world_cut, None)
   \<and> map_of (files world_cut) (getCachePath pc0 key0) = Some (File gzip_header)
   \<and> readCacheFile refcodecs world_cut (getCachePath pc0 key0)
        = Inl (ErrorString ''unexpected EOF'')
   \<and> get refcodecs pc0 world_cut (time0 + 1000000000) key0
        = (world_cut, [], False, Some (ErrorString ''unexpected EOF''))"
proof -
  let ?path = "getCachePath pc0 key0"
  let ?w1 = "world_full\<lparr>files := [(?path, File [])]\<rparr>"
  have c: "os_Create world_full ?path = Inr ?w1"
    by (simp add: os_Create_def world_full_def)
  have e: "json_Encode refcodecs \<lparr>Data = [0x68, 0x69], Timestamp = time0\<rparr> = Inr json0"
    using json_Encode_item0 by (simp add: item0_def)
  have g: "gzip_Writer refcodecs json0 = gzip_Writer_ref json0"
    and n: "gzip_Written refcodecs json0 = 10"
    by (simp_all add: refcodecs_def gzip_Written_ref_def gzip_header_def)
  have f: "write_fault world_full ?path (length (gzip_Writer refcodecs json0)) = Some (10, ENOSPC)"
    unfolding g by (rule write_fault_world_full) (simp_all add: length_gzip_Writer_ref)
  have s: "set_entry refcodecs pc0 world_full time0 key0 [0x68, 0x69] = (world_cut, None)"
    unfolding set_entry_write_fault [OF c e f] n g take_gzip_Writer_ref
    by (simp add: file_Write_def world_cut_def world_full_def)
  have m: "map_of (files world_cut) ?path = Some (File gzip_header)"
    by (simp add: world_cut_def)
  have r: "readCacheFile refcodecs world_cut ?path = Inl (ErrorString ''unexpected EOF'')"
    by (simp add: readCacheFile_def os_Open_def m gzip_NewReader_gzip_header json_Decode_cut
          world_cut_def world_full_def)
  have "get refcodecs pc0 world_cut (time0 + 1000000000) key0
        = (world_cut, [], False, Some (ErrorString ''unexpected EOF''))"
    by (simp add: get_def r Let_def)
  with s m r show ?thesis by simp
qed

text \<open>
  Claim C7. For a key with no file at its path (and no fault injected on opening the
  path), \<^verbatim>\<open>get\<close> returns no payload, not found and no error, and leaves the store as
  it is. When \<^verbatim>\<open>get\<close> does return an error, the error is not a non-existence error,
  nothing was found, and either the file exists or a fault was injected on opening it.
\<close>

theorem get_missing_key:
  "(map_of (files w) (getCachePath pc key) = None \<and> faults w SysOpen (getCachePath pc key) = None
      \<longrightarrow> get L pc w now key = (w, [], False, None))
   \<and> (get L pc w now key = (w', d, found, Some err)
      \<longrightarrow> \<not> os_IsNotExist err \<and> w' = w \<and> d = [] \<and> \<not> found
          \<and> (map_of (files w) (getCachePath pc key) \<noteq> None
               \<or> faults w SysOpen (getCachePath pc key) \<noteq> None))"
  by (auto simp: get_def readCacheFile_def os_Open_def Let_def
           split: sum.splits option.splits if_splits)

text \<open>The empty cache has no entry for the key; a truncated file is an error.\<close>

theorem get_missing_key_witness:
  "map_of (files world_empty) (getCachePath pc0 key0) = None
   \<and> faults world_empty SysOpen (getCachePath pc0 key0) = None
   \<and> get refcodecs pc0 world_empty time0 key0 = (world_empty, [], False, None)
   \<and> get refcodecs pc0 world_truncated time0 key0
         = (world_truncated, [], False, Some (ErrorString ''unexpected EOF''))
   \<and> \<not> os_IsNotExist (ErrorString ''unexpected EOF'')"
proof -
  have h1: "map_of (files world_empty) (getCachePath pc0 key0) = None"
    and h2: "faults world_empty SysOpen (getCachePath pc0 key0) = None"
    by (simp_all add: world_empty_def no_faults_def)
  have g: "get refcodecs pc0 world_truncated time0 key0
         = (world_truncated, [], False, Some (ErrorString ''unexpected EOF''))"
    by (simp add: get_def readCacheFile_def os_Open_def world_truncated_def no_faults_def
          gzip_NewReader_truncated Let_def)
  from get_missing_key [of world_empty pc0 key0 refcodecs time0] h1 h2
    get_missing_key [of world_truncated pc0 key0 refcodecs time0, THEN conjunct2, rule_format, OF g]
    g
  show ?thesis by simp
qed

section \<open>Properties of the expiry test\<close>



section \<open>Properties of the request handler\<close>

lemma rw_status_http_Error:
  "rw_status rw = None \<Longrightarrow> rw_status (http_Error rw msg code) = Some code"
  by (simp add: http_Error_def Write_def WriteHeader_def rw_Set_def Let_def)

text \<open>What the copying leaves under a header name: its old values, then the copied ones.\<close>

lemma map_of_Header_Add:
  "map_of (Header_Add h key v) k =
     (if k = key then Some ((case map_of h key of None \<Rightarrow> [] | Some vs \<Rightarrow> vs) @ [v])
      else map_of h k)"
  by (auto simp: Header_Add_def map_of_update map_add_def split: option.splits)

lemma map_of_fold_Header_Add:
  "map_of (fold (\<lambda>v h. Header_Add h key v) vs h) k =
     (if k = key \<and> vs \<noteq> []
      then Some ((case map_of h key of None \<Rightarrow> [] | Some vs0 \<Rightarrow> vs0) @ vs)
      else map_of h k)"
  by (induction vs arbitrary: h) (auto simp: map_of_Header_Add split: option.splits)

lemma map_of_copy_headers_notin:
  "k \<notin> fst ` set src \<Longrightarrow> map_of (copy_headers src h) k = map_of h k"
proof (induction src arbitrary: h)
  case Nil
  then show ?case by (simp add: copy_headers_def)
next
  case (Cons a src)
  obtain key vs where a: "a = (key, vs)" by (cases a)
  have "copy_headers (a # src) h = copy_headers src (fold (\<lambda>v h. Header_Add h key v) vs h)"
    by (simp add: copy_headers_def a)
  with Cons a show ?case
    by (simp add: map_of_fold_Header_Add)
qed

lemma map_of_copy_headers:
  assumes "distinct (map fst src)" and "(k, vs) \<in> set src" and "vs \<noteq> []"
  shows "map_of (copy_headers src h) k =
           Some ((case map_of h k of None \<Rightarrow> [] | Some vs0 \<Rightarrow> vs0) @ vs)"
  using assms
proof (induction src arbitrary: h)
  case Nil
  then show ?case by simp
next
  case (Cons a src)
  obtain key ws where a: "a = (key, ws)" by (cases a)
  have step: "copy_headers (a # src) h = copy_headers src (fold (\<lambda>v h. Header_Add h key v) ws h)"
    by (simp add: copy_headers_def a)
  show ?case
  proof (cases "(k, vs) = a")
    case True
    then have "k = key" "vs = ws" using a by simp_all
    moreover have "key \<notin> fst ` set src" using Cons.prems(1) a by simp
    ultimately show ?thesis
      using Cons.prems(3)
      by (simp add: step map_of_copy_headers_notin map_of_fold_Header_Add)
  next
    case False
    then have in_src: "(k, vs) \<in> set src" using Cons.prems(2) by simp
    then have "k \<noteq> key" using Cons.prems(1) a by (auto simp: image_iff)
    moreover have "distinct (map fst src)" using Cons.prems(1) by simp
    ultimately show ?thesis
      using Cons.IH [OF _ in_src Cons.prems(3)]
      by (simp add: step map_of_fold_Header_Add)
  qed
qed

lemma proxyHandler_fetched:
  assumes "Values_Get (Query r) ''url'' = targetURL" and "targetURL \<noteq> []"
    and "get L pc w tget (getCacheKey (Method r) targetURL (Header r)) = (w1, d, False, None)"
    and "client (Method r) targetURL (copy_headers (Header r) []) = Response statusCode respHeader body"
    and "set_entry L pc w1 tset (getCacheKey (Method r) targetURL (Header r)) body = (w2, serr)"
  shows "proxyHandler L pc client tget tset w rw r =
           ((case serr of
               Some err \<Rightarrow> log_Printf w2 (''error caching response: '' @ Error err)
             | None \<Rightarrow> w2),
            Write (WriteHeader
                     (rw_Set (rw\<lparr>rw_header := copy_headers respHeader (rw_header rw)\<rparr>)
                        ''X-Cache'' ''MISS'')
                     statusCode)
              body)"
  by (simp add: proxyHandler_def Let_def assms)

lemma miss_response_fields:
  assumes "out = Write (WriteHeader
                     (rw_Set (rw\<lparr>rw_header := copy_headers respHeader (rw_header rw)\<rparr>)
                        ''X-Cache'' ''MISS'')
                     statusCode)
              body"
  shows "map_of (rw_header out) ''X-Cache'' = Some [''MISS'']"
    and "k \<noteq> ''X-Cache'' \<Longrightarrow>
           map_of (rw_header out) k = map_of (copy_headers respHeader (rw_header rw)) k"
    and "rw_status rw = None \<Longrightarrow> rw_status out = Some statusCode"
    and "rw_body out = rw_body rw @ body"
  by (simp_all add: assms Write_def WriteHeader_def rw_Set_def Header_Set_def Let_def
        map_of_update split: option.splits)

lemma getCachePath_key0:
  "getCachePath pc0 key0
     = ''cache/e1aa049fdef91366a85f06e2cb75e45539ef826f59df1073ba3f2128fcdfebb7.gz''"
  by (simp add: getCachePath_def filepath_Join_def pc0_def key0_def)

lemma req0_simps:
  "Values_Get (Query req0) ''url'' = ''http://a''" "Method req0 = ''GET''" "Header req0 = []"
  by (simp_all add: req0_def Values_Get_def)

lemma readCacheFile_world_truncated:
  "readCacheFile refcodecs world_truncated (getCachePath pc0 key0)
     = Inl (ErrorString ''unexpected EOF'')"
  by (simp add: readCacheFile_def os_Open_def world_truncated_def no_faults_def
        gzip_NewReader_truncated)

lemma readCacheFile_world_hit:
  "readCacheFile refcodecs world_hit (getCachePath pc0 key0) = Inr item0"
  by (simp add: readCacheFile_def os_Open_def world_hit_def no_faults_def
        gzip_NewReader_file0 json_Decode_json0)

text \<open>
  Claim C2, as amended. The claim says that a corrupt or truncated cache file is
  treated as a miss, with a logged warning and a fetch from upstream. The handler has
  one branch for every error of \<^verbatim>\<open>get\<close>: when reading the cache file fails with an
  error other than non-existence (a decompression or decoding failure among them),
  the handler replies 500 with the body \<^verbatim>\<open>cache error: \<close> and the error, for any
  upstream; it does not fetch, it logs nothing and it leaves the store as it is.
\<close>

theorem cache_read_error_is_500:
  assumes "Values_Get (Query r) ''url'' = targetURL" and "targetURL \<noteq> []"
    and "readCacheFile L w (getCachePath pc (getCacheKey (Method r) targetURL (Header r))) = Inl err"
    and "\<not> os_IsNotExist err"
  shows "proxyHandler L pc client tget tset w rw r =
           (w, http_Error rw (''cache error: '' @ Error err) StatusInternalServerError)
         \<and> rw_status (snd (proxyHandler L pc client tget tset w new_ResponseWriter r)) = Some 500"
proof -
  have g: "get L pc w tget (getCacheKey (Method r) targetURL (Header r)) = (w, [], False, Some err)"
    by (simp add: get_def Let_def assms(3,4))
  have h: "proxyHandler L pc client tget tset w rw' r =
           (w, http_Error rw' (''cache error: '' @ Error err) StatusInternalServerError)" for rw'
    by (simp add: proxyHandler_def Let_def assms(1,2) g)
  show ?thesis
    by (simp add: h rw_status_http_Error new_ResponseWriter_def StatusInternalServerError_def)
qed

theorem cache_read_error_is_500_witness:
  "Values_Get (Query req0) ''url'' = ''http://a'' \<and> ''http://a'' \<noteq> []
   \<and> readCacheFile refcodecs world_truncated
         (getCachePath pc0 (getCacheKey (Method req0) ''http://a'' (Header req0)))
       = Inl (ErrorString ''unexpected EOF'')
   \<and> \<not> os_IsNotExist (ErrorString ''unexpected EOF'')
   \<and> fst (proxyHandler refcodecs pc0 client0 time0 time0 world_truncated new_ResponseWriter req0)
       = world_truncated
   \<and> rw_status (snd (proxyHandler refcodecs pc0 client0 time0 time0 world_truncated
         new_ResponseWriter req0)) = Some 500"
proof -
  have h1: "Values_Get (Query req0) ''url'' = ''http://a''" and h2: "''http://a'' \<noteq> []"
    by (simp_all add: req0_simps)
  have h3: "readCacheFile refcodecs world_truncated
         (getCachePath pc0 (getCacheKey (Method req0) ''http://a'' (Header req0)))
       = Inl (ErrorString ''unexpected EOF'')"
    by (simp add: req0_simps getCacheKey_req0 readCacheFile_world_truncated)
  have h4: "\<not> os_IsNotExist (ErrorString ''unexpected EOF'')"
    by simp
  from cache_read_error_is_500 [where client = client0 and tget = time0 and tset = time0
        and rw = new_ResponseWriter, OF h1 h2 h3 h4] h1 h3
  show ?thesis
    by (simp add: rw_status_http_Error new_ResponseWriter_def StatusInternalServerError_def)
qed

text \<open>
  The cache file of \<^verbatim>\<open>GET http://a\<close> is cut off inside its gzip header, and the
  upstream would answer 200: the request fails with 500, nothing is logged and the
  file stays.
\<close>

theorem truncated_entry_fails_request:
  "gzip_NewReader refcodecs truncated = Inl ''unexpected EOF''
   \<and> proxyHandler refcodecs pc0 client0 time0 time0 world_truncated new_ResponseWriter req0
       = (world_truncated,
          \<lparr>rw_header = [(''Content-Type'', [''text/plain; charset=utf-8'']),
                        (''X-Content-Type-Options'', [''nosniff''])],
           rw_status = Some 500,
           rw_body = bytes_of (''cache error: unexpected EOF'' @ [CHR 0x0A])\<rparr>)
   \<and> logged world_truncated = []"
proof -
  have "logged world_truncated = []"
    by (simp add: world_truncated_def)
  then show ?thesis
    by (simp add: gzip_NewReader_truncated proxyHandler_def req0_simps getCacheKey_req0 get_def
          readCacheFile_world_truncated Let_def http_Error_def Write_def WriteHeader_def
          rw_Set_def Header_Set_def new_ResponseWriter_def StatusInternalServerError_def)
qed

text \<open>
  Claim C6. When the request reaches the store step (the lookup missed without
  error and the upstream answered) and \<^verbatim>\<open>set\<close> fails, the failure is logged as
  \<^verbatim>\<open>error caching response\<close> and the reply is the one of a successful store: the
  upstream status code, the fetched body, the upstream headers with all their values,
  and \<^verbatim>\<open>X-Cache: MISS\<close>.
\<close>

theorem store_failure_not_fatal:
  assumes "Values_Get (Query r) ''url'' = targetURL" and "targetURL \<noteq> []"
    and "get L pc w tget (getCacheKey (Method r) targetURL (Header r)) = (w1, d, False, None)"
    and "client (Method r) targetURL (copy_headers (Header r) []) = Response statusCode respHeader body"
    and "set_entry L pc w1 tset (getCacheKey (Method r) targetURL (Header r)) body = (w2, Some err)"
    and "proxyHandler L pc client tget tset w new_ResponseWriter r = (w', out)"
  shows "w' = log_Printf w2 (''error caching response: '' @ Error err)
         \<and> last (logged w') = ''error caching response: '' @ Error err
         \<and> rw_status out = Some statusCode
         \<and> rw_body out = body
         \<and> map_of (rw_header out) ''X-Cache'' = Some [''MISS'']
         \<and> (\<forall>k vs. distinct (map fst respHeader) \<and> (k, vs) \<in> set respHeader \<and> vs \<noteq> []
                \<and> k \<noteq> ''X-Cache'' \<longrightarrow> map_of (rw_header out) k = Some vs)"
proof -
  have *: "(w', out) =
           (log_Printf w2 (''error caching response: '' @ Error err),
            Write (WriteHeader
                     (rw_Set (new_ResponseWriter
                        \<lparr>rw_header := copy_headers respHeader (rw_header new_ResponseWriter)\<rparr>)
                        ''X-Cache'' ''MISS'')
                     statusCode)
              body)"
    using proxyHandler_fetched [where client = client and rw = new_ResponseWriter, OF assms(1-5)]
      assms(6) by simp
  then have w': "w' = log_Printf w2 (''error caching response: '' @ Error err)"
    and out: "out = Write (WriteHeader
                     (rw_Set (new_ResponseWriter
                        \<lparr>rw_header := copy_headers respHeader (rw_header new_ResponseWriter)\<rparr>)
                        ''X-Cache'' ''MISS'')
                     statusCode)
              body"
    by simp_all
  have n: "rw_status new_ResponseWriter = None" "rw_body new_ResponseWriter = []"
    "rw_header new_ResponseWriter = []"
    by (simp_all add: new_ResponseWriter_def)
  have "map_of (rw_header out) k = Some vs"
    if "distinct (map fst respHeader)" "(k, vs) \<in> set respHeader" "vs \<noteq> []" "k \<noteq> ''X-Cache''"
    for k vs
    using map_of_copy_headers [OF that(1-3), of "[]"] miss_response_fields(2) [OF out that(4)]
    by (simp add: n)
  then show ?thesis
    unfolding w'
    by (simp add: miss_response_fields [OF out] n log_Printf_def)
qed

text \<open>No file can be created in the cache directory; the upstream answers 200.\<close>

theorem store_failure_not_fatal_witness:
  "get refcodecs pc0 world_readonly time0 (getCacheKey (Method req0) ''http://a'' (Header req0))
     = (world_readonly, [], False, None)
   \<and> set_entry refcodecs pc0 world_readonly time0
        (getCacheKey (Method req0) ''http://a'' (Header req0)) [0x68, 0x69]
     = (world_readonly, Some (PathError ''open'' (getCachePath pc0 key0) EROFS))
   \<and> fst (proxyHandler refcodecs pc0 client0 time0 time0 world_readonly new_ResponseWriter req0)
     = world_readonly\<lparr>logged :=
         [''error caching response: open '' @ getCachePath pc0 key0
            @ '': read-only file system'']\<rparr>
   \<and> rw_status (snd (proxyHandler refcodecs pc0 client0 time0 time0 world_readonly
         new_ResponseWriter req0)) = Some 200
   \<and> rw_body (snd (proxyHandler refcodecs pc0 client0 time0 time0 world_readonly
         new_ResponseWriter req0)) = [0x68, 0x69]
   \<and> map_of (rw_header (snd (proxyHandler refcodecs pc0 client0 time0 time0 world_readonly
         new_ResponseWriter req0))) ''X-Cache'' = Some [''MISS'']
   \<and> map_of (rw_header (snd (proxyHandler refcodecs pc0 client0 time0 time0 world_readonly
         new_ResponseWriter req0))) ''Content-Type'' = Some [''text/plain'']"
proof -
  let ?key = "getCacheKey (Method req0) ''http://a'' (Header req0)"
  let ?run = "proxyHandler refcodecs pc0 client0 time0 time0 world_readonly new_ResponseWriter req0"
  have h1: "Values_Get (Query req0) ''url'' = ''http://a''" and h2: "''http://a'' \<noteq> []"
    by (simp_all add: req0_simps)
  have h3: "get refcodecs pc0 world_readonly time0 ?key = (world_readonly, [], False, None)"
    by (simp add: get_def readCacheFile_def os_Open_def world_readonly_def Let_def)
  have h4: "client0 (Method req0) ''http://a'' (copy_headers (Header req0) [])
              = Response 200 [(''Content-Type'', [''text/plain''])] [0x68, 0x69]"
    by (simp add: client0_def)
  have h5: "set_entry refcodecs pc0 world_readonly time0 ?key [0x68, 0x69]
              = (world_readonly, Some (PathError ''open'' (getCachePath pc0 key0) EROFS))"
    by (simp add: set_entry_def os_Create_def world_readonly_def Let_def req0_simps
          getCacheKey_req0)
  have h6: "?run = (fst ?run, snd ?run)"
    by simp
  from store_failure_not_fatal [where client = client0 and tget = time0 and tset = time0,
        OF h1 h2 h3 h4 h5 h6] h3 h5
  show ?thesis
    by (simp add: log_Printf_def world_readonly_def)
qed

text \<open>
  Claim C8. A request served from a fresh cache entry gets \<^verbatim>\<open>X-Cache: HIT\<close>,
  \<^verbatim>\<open>Content-Type: application/json\<close>, the status 200 and the stored payload as body,
  and the store is left as it is. A request served by an upstream fetch gets
  \<^verbatim>\<open>X-Cache: MISS\<close>, whatever the upstream headers were.
\<close>

theorem cache_status_header:
  "(Values_Get (Query r) ''url'' = targetURL \<and> targetURL \<noteq> []
      \<and> readCacheFile L w (getCachePath pc (getCacheKey (Method r) targetURL (Header r)))
            = Inr item
      \<and> sint (time_Sub tget (Timestamp item)) \<le> sint (ttl pc)
    \<longrightarrow> proxyHandler L pc client tget tset w new_ResponseWriter r =
          (w, \<lparr>rw_header = [(''X-Cache'', [''HIT'']), (''Content-Type'', [''application/json''])],
               rw_status = Some 200, rw_body = Data item\<rparr>))
   \<and> (Values_Get (Query r) ''url'' = targetURL \<and> targetURL \<noteq> []
      \<and> get L pc w tget (getCacheKey (Method r) targetURL (Header r)) = (w1, d, False, None)
      \<and> client (Method r) targetURL (copy_headers (Header r) [])
            = Response statusCode respHeader body
    \<longrightarrow> map_of (rw_header (snd (proxyHandler L pc client tget tset w rw r))) ''X-Cache''
          = Some [''MISS''])"
proof (intro conjI impI)
  assume a: "Values_Get (Query r) ''url'' = targetURL \<and> targetURL \<noteq> []
      \<and> readCacheFile L w (getCachePath pc (getCacheKey (Method r) targetURL (Header r)))
            = Inr item
      \<and> sint (time_Sub tget (Timestamp item)) \<le> sint (ttl pc)"
  then have g: "get L pc w tget (getCacheKey (Method r) targetURL (Header r))
                  = (w, Data item, True, None)"
    by (simp add: get_def Let_def)
  show "proxyHandler L pc client tget tset w new_ResponseWriter r =
          (w, \<lparr>rw_header = [(''X-Cache'', [''HIT'']), (''Content-Type'', [''application/json''])],
               rw_status = Some 200, rw_body = Data item\<rparr>)"
    using a
    by (simp add: proxyHandler_def Let_def g new_ResponseWriter_def Write_def WriteHeader_def
          rw_Set_def Header_Set_def)
next
  assume a: "Values_Get (Query r) ''url'' = targetURL \<and> targetURL \<noteq> []
      \<and> get L pc w tget (getCacheKey (Method r) targetURL (Header r)) = (w1, d, False, None)
      \<and> client (Method r) targetURL (copy_headers (Header r) [])
            = Response statusCode respHeader body"
  obtain w2 serr where
    s: "set_entry L pc w1 tset (getCacheKey (Method r) targetURL (Header r)) body = (w2, serr)"
    by (cases "set_entry L pc w1 tset (getCacheKey (Method r) targetURL (Header r)) body")
  from a have a1: "Values_Get (Query r) ''url'' = targetURL" and a2: "targetURL \<noteq> []"
    and a3: "get L pc w tget (getCacheKey (Method r) targetURL (Header r)) = (w1, d, False, None)"
    and a4: "client (Method r) targetURL (copy_headers (Header r) [])
            = Response statusCode respHeader body"
    by simp_all
  show "map_of (rw_header (snd (proxyHandler L pc client tget tset w rw r))) ''X-Cache''
          = Some [''MISS'']"
    by (simp add: proxyHandler_fetched [where client = client, OF a1 a2 a3 a4 s]
          miss_response_fields(1) [OF refl])
qed

text \<open>
  The request is served from the entry stored one second before, and from the
  upstream when the cache is empty.
\<close>

theorem cache_status_header_witness:
  "proxyHandler refcodecs pc0 client0 (time0 + 1000000000) (time0 + 1000000000) world_hit
      new_ResponseWriter req0
     = (world_hit,
        \<lparr>rw_header = [(''X-Cache'', [''HIT'']), (''Content-Type'', [''application/json''])],
         rw_status = Some 200, rw_body = [0x68, 0x69]\<rparr>)
   \<and> get refcodecs pc0 world_empty time0 (getCacheKey (Method req0) ''http://a'' (Header req0))
     = (world_empty, [], False, None)
   \<and> map_of (rw_header (snd (proxyHandler refcodecs pc0 client0 time0 time0 world_empty
         new_ResponseWriter req0))) ''X-Cache'' = Some [''MISS'']"
proof -
  let ?key = "getCacheKey (Method req0) ''http://a'' (Header req0)"
  have h1: "Values_Get (Query req0) ''url'' = ''http://a'' \<and> ''http://a'' \<noteq> []
      \<and> readCacheFile refcodecs world_hit (getCachePath pc0 ?key) = Inr item0
      \<and> sint (time_Sub (time0 + 1000000000) (Timestamp item0)) \<le> sint (ttl pc0)"
    by (simp add: req0_simps getCacheKey_req0 readCacheFile_world_hit item0_def sint_time_Sub
          sint_ttl_pc0 maxDuration_def minDuration_def)
  have g: "get refcodecs pc0 world_empty time0 ?key = (world_empty, [], False, None)"
    by (simp add: get_def readCacheFile_def os_Open_def world_empty_def no_faults_def Let_def)
  have g': "get refcodecs pc0 world_empty time0 key0 = (world_empty, [], False, None)"
    using g by (simp add: req0_simps getCacheKey_req0)
  have h2: "Values_Get (Query req0) ''url'' = ''http://a'' \<and> ''http://a'' \<noteq> []
      \<and> get refcodecs pc0 world_empty time0 ?key = (world_empty, [], False, None)
      \<and> client0 (Method req0) ''http://a'' (copy_headers (Header req0) [])
            = Response 200 [(''Content-Type'', [''text/plain''])] [0x68, 0x69]"
    by (simp add: req0_simps getCacheKey_req0 g' client0_def)
  from cache_status_header [where client = client0 and r = req0 and L = refcodecs
        and pc = pc0 and w = world_hit and tget = "time0 + 1000000000"
        and tset = "time0 + 1000000000" and item = item0 and targetURL = "''http://a''",
        THEN conjunct1, rule_format, OF h1]
    cache_status_header [where client = client0 and r = req0 and L = refcodecs
        and pc = pc0 and w = world_empty and tget = time0 and tset = time0
        and rw = new_ResponseWriter and targetURL = "''http://a''",
        THEN conjunct2, rule_format, OF h2]
    g
  show ?thesis
    by (simp add: item0_def)
qed

section \<open>Properties of the sweep\<close>

lemma delete_as_filter: "AList.delete k al = filter (\<lambda>(p, f). p \<noteq> k) al"
  by (induction al) (auto simp: AList.delete_eq)

lemma readCacheFile_Inr_File:
  assumes "readCacheFile L w p = Inr item"
  shows "\<exists>bs. map_of (files w) p = Some (File bs) \<and> faults w SysOpen p = None"
proof -
  from assms obtain nd where o: "os_Open w p = Inr nd"
    by (auto simp: readCacheFile_def split: sum.splits)
  with assms obtain bs where "file_Read p nd = Inr bs"
    by (auto simp: readCacheFile_def split: sum.splits)
  then have "nd = File bs" by (cases nd) simp_all
  with o show ?thesis
    by (auto simp: os_Open_def split: option.splits)
qed

text \<open>Reading a path only looks at that path.\<close>

lemma readCacheFile_cong:
  assumes "faults w' = faults w" and "map_of (files w') p = map_of (files w) p"
  shows "readCacheFile L w' p = readCacheFile L w p"
proof -
  have "os_Open w' p = os_Open w p"
    unfolding os_Open_def assms ..
  then show ?thesis
    unfolding readCacheFile_def by simp
qed

lemma expired_cong:
  assumes "faults w' = faults w" and "map_of (files w') p = map_of (files w) p"
  shows "expired L pc w' now p = expired L pc w now p"
  by (simp add: expired_def readCacheFile_cong [OF assms])

lemma cleanExpiredCache_file_files:
  "files (cleanExpiredCache_file L pc now d w) =
     (if removes L pc now w d
      then AList.delete (filepath_Join (cacheDir pc) (Name d)) (files w) else files w)"
  and cleanExpiredCache_file_faults:
  "faults (cleanExpiredCache_file L pc now d w) = faults w"
proof -
  let ?p = "filepath_Join (cacheDir pc) (Name d)"
  show "faults (cleanExpiredCache_file L pc now d w) = faults w"
    by (auto simp: cleanExpiredCache_file_def Let_def log_Printf_def os_Remove_def
             split: sum.splits option.splits node.splits prod.splits)
  show "files (cleanExpiredCache_file L pc now d w) =
     (if removes L pc now w d then AList.delete ?p (files w) else files w)"
  proof (cases "readCacheFile L w ?p")
    case (Inl err)
    then show ?thesis
      by (simp add: cleanExpiredCache_file_def Let_def log_Printf_def removes_def expired_def)
  next
    case (Inr item)
    from readCacheFile_Inr_File [OF Inr] obtain bs where
      "map_of (files w) ?p = Some (File bs)" by blast
    then show ?thesis
      using Inr
      by (auto simp: cleanExpiredCache_file_def Let_def log_Printf_def removes_def expired_def
            os_Remove_def split: option.splits)
  qed
qed


lemma filepath_Join_inject [simp]:
  "filepath_Join dir a = filepath_Join dir b \<longleftrightarrow> a = b"
  by (simp add: filepath_Join_def)

lemma removes_after_step:
  assumes "Name d' \<noteq> Name d"
  shows "removes L pc now (cleanExpiredCache_file L pc now d w) d' = removes L pc now w d'"
proof -
  let ?w1 = "cleanExpiredCache_file L pc now d w"
  let ?p' = "filepath_Join (cacheDir pc) (Name d')"
  have m: "map_of (files ?w1) ?p' = map_of (files w) ?p'"
    using assms by (simp add: cleanExpiredCache_file_files map_of_delete)
  show ?thesis
    unfolding removes_def cleanExpiredCache_file_faults
    by (simp add: expired_cong [OF cleanExpiredCache_file_faults m])
qed

lemma sweep_fold_faults:
  "faults (fold (cleanExpiredCache_file L pc now) ds w) = faults w"
  by (induction ds arbitrary: w) (simp_all add: cleanExpiredCache_file_faults)

lemma sweep_fold_files:
  assumes "distinct (map Name ds)"
  shows "files (fold (cleanExpiredCache_file L pc now) ds w) =
           filter (\<lambda>(p, f). \<not> (\<exists>d\<in>set ds. removes L pc now w d
                                 \<and> p = filepath_Join (cacheDir pc) (Name d))) (files w)"
  using assms
proof (induction ds arbitrary: w)
  case Nil
  then show ?case by simp
next
  case (Cons d ds)
  let ?w1 = "cleanExpiredCache_file L pc now d w"
  let ?J = "\<lambda>d. filepath_Join (cacheDir pc) (Name d)"
  have same: "removes L pc now ?w1 d' = removes L pc now w d'" if "d' \<in> set ds" for d'
  proof -
    from that Cons.prems have "Name d' \<noteq> Name d" by (auto simp: image_iff)
    then show ?thesis by (rule removes_after_step)
  qed
  have "files (fold (cleanExpiredCache_file L pc now) (d # ds) w) =
          filter (\<lambda>(p, f). \<not> (\<exists>d'\<in>set ds. removes L pc now ?w1 d' \<and> p = ?J d')) (files ?w1)"
    using Cons.IH [of ?w1] Cons.prems by simp
  also have "\<dots> = filter (\<lambda>(p, f). \<not> (\<exists>d'\<in>set ds. removes L pc now w d' \<and> p = ?J d')) (files ?w1)"
    using same by (intro filter_cong refl) (auto simp: split_def)
  also have "\<dots> = filter (\<lambda>(p, f). \<not> (\<exists>d'\<in>set (d # ds). removes L pc now w d' \<and> p = ?J d'))
                     (files w)"
    by (auto simp: cleanExpiredCache_file_files delete_as_filter split_def intro!: filter_cong)
  finally show ?case .
qed


lemma child_path:
  assumes "is_child dir p"
  shows "filepath_Join dir (drop (length dir + 1) p) = p"
proof -
  have "take (length dir + 1) p @ drop (length dir + 1) p = p"
    by (rule append_take_drop_id)
  with assms show ?thesis
    by (simp add: is_child_def filepath_Join_def)
qed

lemma child_path_Suc:
  "is_child dir p \<Longrightarrow> filepath_Join dir (drop (Suc (length dir)) p) = p"
  using child_path [of dir p] by simp

lemma is_child_Join:
  "is_child dir (filepath_Join dir name) \<longleftrightarrow> name \<noteq> [] \<and> CHR ''/'' \<notin> set name"
  by (simp add: is_child_def filepath_Join_def)

lemma distinct_Name_dir_entries:
  assumes "distinct (map fst fs)"
  shows "distinct (map Name (dir_entries dir fs))"
proof -
  have "map Name (dir_entries dir fs)
          = map (\<lambda>x. drop (length dir + 1) (fst x)) (filter (\<lambda>x. is_child dir (fst x)) fs)"
    by (simp add: dir_entries_def split_def comp_def)
  moreover have "inj_on (\<lambda>x. drop (length dir + 1) (fst x)) {x \<in> set fs. is_child dir (fst x)}"
  proof (rule inj_onI)
    fix x y
    assume x: "x \<in> {x \<in> set fs. is_child dir (fst x)}"
      and y: "y \<in> {x \<in> set fs. is_child dir (fst x)}"
      and e: "drop (length dir + 1) (fst x) = drop (length dir + 1) (fst y)"
    from x y have "filepath_Join dir (drop (length dir + 1) (fst x)) = fst x"
      "filepath_Join dir (drop (length dir + 1) (fst y)) = fst y"
      by (simp_all add: child_path_Suc)
    with e have "fst x = fst y" by simp
    with x y assms show "x = y"
      by (simp add: inj_on_eq_iff [OF iffD1 [OF distinct_map, THEN conjunct2]])
  qed
  moreover have "distinct (filter (\<lambda>x. is_child dir (fst x)) fs)"
    using assms by (simp add: distinct_map)
  ultimately show ?thesis
    by (simp add: distinct_map)
qed

lemma distinct_map_insort_key:
  "distinct (map f (insort_key f x xs)) \<longleftrightarrow> f x \<notin> f ` set xs \<and> distinct (map f xs)"
  by (induction xs) (auto simp: set_insort_key)

lemma distinct_map_sort_key:
  "distinct (map f (sort_key f xs)) \<longleftrightarrow> distinct (map f xs)"
  by (induction xs) (simp_all add: distinct_map_insort_key)

lemma swept_iff_listed:
  assumes "distinct (map fst (files w))" and "(p, f) \<in> set (files w)"
  shows "(\<exists>d\<in>set (sort_key Name (dir_entries (cacheDir pc) (files w))).
            removes L pc now w d \<and> p = filepath_Join (cacheDir pc) (Name d))
         \<longleftrightarrow> swept L pc w now p"
proof
  assume "\<exists>d\<in>set (sort_key Name (dir_entries (cacheDir pc) (files w))).
            removes L pc now w d \<and> p = filepath_Join (cacheDir pc) (Name d)"
  then obtain d where d: "d \<in> set (dir_entries (cacheDir pc) (files w))"
    and r: "removes L pc now w d" and p: "p = filepath_Join (cacheDir pc) (Name d)"
    by auto
  from d obtain p' f' where "(p', f') \<in> set (files w)" "is_child (cacheDir pc) p'"
    "Name d = drop (length (cacheDir pc) + 1) p'"
    by (auto simp: dir_entries_def)
  with p have "is_child (cacheDir pc) p" by (simp add: child_path_Suc)
  with r p show "swept L pc w now p" by (simp add: swept_def removes_def)
next
  assume s: "swept L pc w now p"
  then have c: "is_child (cacheDir pc) p" and e: "expired L pc w now p"
    and r: "faults w SysRemove p = None"
    by (simp_all add: swept_def)
  from e obtain item where "readCacheFile L w p = Inr item"
    by (auto simp: expired_def split: sum.splits)
  from readCacheFile_Inr_File [OF this] obtain bs where "map_of (files w) p = Some (File bs)"
    by blast
  moreover have "map_of (files w) p = Some f"
    using assms by simp
  ultimately have f: "f \<noteq> Dir" by simp
  let ?d = "DirEntry (drop (length (cacheDir pc) + 1) p) (f = Dir)"
  have "?d \<in> set (dir_entries (cacheDir pc) (files w))"
    using assms(2) c by (force simp: dir_entries_def)
  moreover have "removes L pc now w ?d \<and> p = filepath_Join (cacheDir pc) (Name ?d)"
    using c e r f by (simp add: removes_def child_path_Suc)
  ultimately show "\<exists>d\<in>set (sort_key Name (dir_entries (cacheDir pc) (files w))).
            removes L pc now w d \<and> p = filepath_Join (cacheDir pc) (Name d)"
    by (intro bexI [of _ ?d]) simp_all
qed

lemma cleanExpiredCache_files:
  assumes "distinct (map fst (files w))" and "faults w SysReadDir (cacheDir pc) = None"
  shows "cleanExpiredCache L pc w now =
           (fold (cleanExpiredCache_file L pc now)
              (sort_key Name (dir_entries (cacheDir pc) (files w))) w, None)"
    and "files (fst (cleanExpiredCache L pc w now))
           = filter (\<lambda>(p, f). \<not> swept L pc w now p) (files w)"
proof -
  let ?ds = "sort_key Name (dir_entries (cacheDir pc) (files w))"
  show c: "cleanExpiredCache L pc w now = (fold (cleanExpiredCache_file L pc now) ?ds w, None)"
    by (simp add: cleanExpiredCache_def os_ReadDir_def assms(2))
  have "distinct (map Name ?ds)"
    by (simp add: distinct_map_sort_key distinct_Name_dir_entries [OF assms(1)])
  then have "files (fold (cleanExpiredCache_file L pc now) ?ds w) =
           filter (\<lambda>(p, f). \<not> (\<exists>d\<in>set ?ds. removes L pc now w d
                                 \<and> p = filepath_Join (cacheDir pc) (Name d))) (files w)"
    by (rule sweep_fold_files)
  also have "\<dots> = filter (\<lambda>(p, f). \<not> swept L pc w now p) (files w)"
  proof (rule filter_cong [OF refl])
    fix x
    assume x: "x \<in> set (files w)"
    obtain p f where pf: "x = (p, f)" by (cases x)
    from x pf have "(p, f) \<in> set (files w)" by simp
    from swept_iff_listed [OF assms(1) this, of pc L now]
    show "(case x of (p, f) \<Rightarrow> \<not> (\<exists>d\<in>set ?ds. removes L pc now w d
                                 \<and> p = filepath_Join (cacheDir pc) (Name d)))
          = (case x of (p, f) \<Rightarrow> \<not> swept L pc w now p)"
      unfolding pf prod.case by (rule arg_cong)
  qed
  finally show "files (fst (cleanExpiredCache L pc w now))
           = filter (\<lambda>(p, f). \<not> swept L pc w now p) (files w)"
    unfolding c fst_conv .
qed


text \<open>The messages one loop iteration adds to the log.\<close>

lemma cleanExpiredCache_file_logged:
  "\<exists>ms. logged (cleanExpiredCache_file L pc now d w) = logged w @ ms"
  by (auto simp: cleanExpiredCache_file_def Let_def log_Printf_def os_Remove_def
           split: sum.splits option.splits node.splits prod.splits)

lemma os_Remove_File:
  assumes "map_of (files w) p = Some (File bs)"
  shows "fst (os_Remove w p) = map_option (PathError ''remove'' p) (faults w SysRemove p)"
    and "logged (snd (os_Remove w p)) = logged w"
  using assms by (auto simp: os_Remove_def split: option.splits)

lemma new_messages_cong:
  assumes "faults w' = faults w"
    and "map_of (files w') (filepath_Join (cacheDir pc) (Name d))
           = map_of (files w) (filepath_Join (cacheDir pc) (Name d))"
  shows "drop (length (logged w')) (logged (cleanExpiredCache_file L pc now d w'))
           = drop (length (logged w)) (logged (cleanExpiredCache_file L pc now d w))"
proof -
  let ?p = "filepath_Join (cacheDir pc) (Name d)"
  have r: "readCacheFile L w' ?p = readCacheFile L w ?p"
    by (rule readCacheFile_cong [OF assms])
  show ?thesis
  proof (cases "readCacheFile L w ?p")
    case (Inl err)
    then show ?thesis
      using r by (simp add: cleanExpiredCache_file_def Let_def log_Printf_def)
  next
    case (Inr item)
    from readCacheFile_Inr_File [OF Inr] obtain bs where
      f: "map_of (files w) ?p = Some (File bs)" by blast
    then have f': "map_of (files w') ?p = Some (File bs)" using assms(2) by simp
    obtain e1 w1 where o1: "os_Remove w ?p = (e1, w1)" by (cases "os_Remove w ?p")
    obtain e2 w2 where o2: "os_Remove w' ?p = (e2, w2)" by (cases "os_Remove w' ?p")
    from os_Remove_File [OF f] o1 have 1: "e1 = map_option (PathError ''remove'' ?p)
      (faults w SysRemove ?p)" "logged w1 = logged w" by simp_all
    from os_Remove_File [OF f'] o2 have 2: "e2 = map_option (PathError ''remove'' ?p)
      (faults w SysRemove ?p)" "logged w2 = logged w'" by (simp_all add: assms(1))
    show ?thesis
      using Inr r
      by (simp add: cleanExpiredCache_file_def Let_def log_Printf_def o1 o2 1 2
            split: option.splits)
  qed
qed

lemma sweep_fold_logged:
  assumes "distinct (map Name ds)"
  shows "logged (fold (cleanExpiredCache_file L pc now) ds w) =
           logged w @ concat (map (\<lambda>d. drop (length (logged w))
                                     (logged (cleanExpiredCache_file L pc now d w))) ds)"
  using assms
proof (induction ds arbitrary: w)
  case Nil
  then show ?case by simp
next
  case (Cons d ds)
  let ?w1 = "cleanExpiredCache_file L pc now d w"
  let ?new = "\<lambda>w d. drop (length (logged w)) (logged (cleanExpiredCache_file L pc now d w))"
  obtain ms where ms: "logged ?w1 = logged w @ ms"
    using cleanExpiredCache_file_logged by blast
  have same: "?new ?w1 d' = ?new w d'" if "d' \<in> set ds" for d'
  proof -
    from that Cons.prems have "Name d' \<noteq> Name d" by (auto simp: image_iff)
    then have "map_of (files ?w1) (filepath_Join (cacheDir pc) (Name d'))
                 = map_of (files w) (filepath_Join (cacheDir pc) (Name d'))"
      by (simp add: cleanExpiredCache_file_files map_of_delete)
    then show ?thesis
      by (rule new_messages_cong [OF cleanExpiredCache_file_faults])
  qed
  have "logged (fold (cleanExpiredCache_file L pc now) (d # ds) w)
          = logged ?w1 @ concat (map (?new ?w1) ds)"
    using Cons.IH [of ?w1] Cons.prems by simp
  also have "map (?new ?w1) ds = map (?new w) ds"
    using same by (intro map_cong refl)
  also have "logged ?w1 = logged w @ ?new w d"
    by (simp add: ms)
  finally show ?case by simp
qed


lemma sweep_logged_member:
  assumes "distinct (map fst (files w))" and "faults w SysReadDir (cacheDir pc) = None"
    and "(p, f) \<in> set (files w)" and "is_child (cacheDir pc) p"
    and "logged (cleanExpiredCache_file L pc now
            (DirEntry (drop (length (cacheDir pc) + 1) p) (f = Dir)) w) = logged w @ [msg]"
  shows "msg \<in> set (logged (fst (cleanExpiredCache L pc w now)))"
proof -
  let ?ds = "sort_key Name (dir_entries (cacheDir pc) (files w))"
  let ?d = "DirEntry (drop (length (cacheDir pc) + 1) p) (f = Dir)"
  have d: "?d \<in> set ?ds"
    using assms(3,4) by (force simp: dir_entries_def)
  have "distinct (map Name ?ds)"
    by (simp add: distinct_map_sort_key distinct_Name_dir_entries [OF assms(1)])
  from sweep_fold_logged [OF this, of L pc now w]
  have "set (drop (length (logged w)) (logged (cleanExpiredCache_file L pc now ?d w)))
          \<subseteq> set (logged (fold (cleanExpiredCache_file L pc now) ?ds w))"
    using d by auto
  then show ?thesis
    using assms(5) by (simp add: cleanExpiredCache_files(1) [OF assms(1,2)])
qed

text \<open>
  Claim C5. In a store whose paths are distinct and whose cache directory can be
  listed, one run of \<^verbatim>\<open>cleanExpiredCache\<close> returns no error and removes exactly the
  files directly under the cache directory that are readable cache entries, stale at
  the time of the sweep, and that \<^verbatim>\<open>os.Remove\<close> does not fail on; every other file is
  left as it is, with its bytes and in its place. The files before the sweep are the
  files after it and the removed ones. A file that cannot be read and a stale entry
  that cannot be deleted are each logged, and the other entries are still processed.
\<close>

theorem sweep_removes_exactly_stale:
  assumes "distinct (map fst (files w))" and "faults w SysReadDir (cacheDir pc) = None"
    and "cleanExpiredCache L pc w now = (w', res)"
  shows "res = None
    \<and> files w' = filter (\<lambda>(p, f). \<not> swept L pc w now p) (files w)
    \<and> length (files w') + length (filter (\<lambda>(p, f). swept L pc w now p) (files w))
        = length (files w)
    \<and> faults w' = faults w
    \<and> (\<forall>p f e. (p, f) \<in> set (files w) \<and> is_child (cacheDir pc) p \<and> f \<noteq> Dir
          \<and> readCacheFile L w p = Inl e
          \<longrightarrow> ''Error reading cache file '' @ p @ '': '' @ Error e \<in> set (logged w'))
    \<and> (\<forall>p f e. (p, f) \<in> set (files w) \<and> is_child (cacheDir pc) p \<and> expired L pc w now p
          \<and> faults w SysRemove p = Some e
          \<longrightarrow> ''Error removing expired cache file '' @ p @ '': ''
                @ Error (PathError ''remove'' p e) \<in> set (logged w'))"
proof -
  note c = cleanExpiredCache_files [OF assms(1,2), of L now]
  from c(1) assms(3) have res: "res = None"
    and w': "w' = fst (cleanExpiredCache L pc w now)"
    by simp_all
  have fs: "files w' = filter (\<lambda>(p, f). \<not> swept L pc w now p) (files w)"
    unfolding w' by (rule c(2))
  have len: "length (files w') + length (filter (\<lambda>(p, f). swept L pc w now p) (files w))
        = length (files w)"
    unfolding fs using sum_length_filter_compl [of "\<lambda>(p, f). swept L pc w now p" "files w"]
    by (simp add: split_def)
  have flt: "faults w' = faults w"
    unfolding w' c(1) by (simp add: sweep_fold_faults)
  have rd: "''Error reading cache file '' @ p @ '': '' @ Error e \<in> set (logged w')"
    if "(p, f) \<in> set (files w)" "is_child (cacheDir pc) p" "f \<noteq> Dir"
      "readCacheFile L w p = Inl e" for p f e
    unfolding w'
    using that(3,4)
    by (intro sweep_logged_member [OF assms(1,2) that(1,2)])
       (simp add: cleanExpiredCache_file_def Let_def log_Printf_def child_path_Suc [OF that(2)])
  have rm: "''Error removing expired cache file '' @ p @ '': ''
                @ Error (PathError ''remove'' p e) \<in> set (logged w')"
    if "(p, f) \<in> set (files w)" "is_child (cacheDir pc) p" "expired L pc w now p"
      "faults w SysRemove p = Some e" for p f e
  proof -
    from that(3) obtain item where item: "readCacheFile L w p = Inr item"
      and stale: "sint (ttl pc) < sint (time_Sub now (Timestamp item))"
      by (auto simp: expired_def split: sum.splits)
    from readCacheFile_Inr_File [OF item] obtain bs where "map_of (files w) p = Some (File bs)"
      by blast
    moreover have "map_of (files w) p = Some f" using assms(1) that(1) by simp
    ultimately have "f \<noteq> Dir" by simp
    then show ?thesis
      unfolding w'
      using item stale that(4)
      by (intro sweep_logged_member [OF assms(1,2) that(1,2)])
         (simp add: cleanExpiredCache_file_def Let_def log_Printf_def os_Remove_def
            child_path_Suc [OF that(2)])
  qed
  from res fs len flt rd rm show ?thesis by blast
qed

text \<open>
  The sweep of \<open>world_sweep\<close> 61 seconds after \<open>time0\<close>: the old entry \<^verbatim>\<open>a.gz\<close> is
  removed; the recent entry \<^verbatim>\<open>b.gz\<close>, the truncated file \<^verbatim>\<open>c.gz\<close>, the directory
  \<^verbatim>\<open>d\<close> and the undeletable old entry \<^verbatim>\<open>e.gz\<close> stay, and the two failures are logged.
\<close>

lemma files_world_sweep:
  "files world_sweep =
     [(''cache/a.gz'', File file0), (''cache/b.gz'', File file1),
      (''cache/c.gz'', File truncated), (''cache/d'', Dir), (''cache/e.gz'', File file0)]"
  by (simp add: world_sweep_def)

lemma readCacheFile_world_sweep:
  "readCacheFile refcodecs world_sweep ''cache/a.gz'' = Inr item0"
  "readCacheFile refcodecs world_sweep ''cache/b.gz'' = Inr item1"
  "readCacheFile refcodecs world_sweep ''cache/c.gz'' = Inl (ErrorString ''unexpected EOF'')"
  "readCacheFile refcodecs world_sweep ''cache/d'' = Inl (PathError ''read'' ''cache/d'' EISDIR)"
  "readCacheFile refcodecs world_sweep ''cache/e.gz'' = Inr item0"
  by (simp_all add: readCacheFile_def os_Open_def world_sweep_def gzip_NewReader_file0
        gzip_NewReader_file1 gzip_NewReader_truncated json_Decode_json0 json_Decode_json1)

lemma expired_world_sweep:
  "expired refcodecs pc0 world_sweep (time0 + 61000000000) ''cache/a.gz''"
  "\<not> expired refcodecs pc0 world_sweep (time0 + 61000000000) ''cache/b.gz''"
  "\<not> expired refcodecs pc0 world_sweep (time0 + 61000000000) ''cache/c.gz''"
  "\<not> expired refcodecs pc0 world_sweep (time0 + 61000000000) ''cache/d''"
  "expired refcodecs pc0 world_sweep (time0 + 61000000000) ''cache/e.gz''"
  by (simp_all add: expired_def readCacheFile_world_sweep item0_def item1_def sint_time_Sub
        sint_ttl_pc0 maxDuration_def minDuration_def)

lemma swept_world_sweep:
  "swept refcodecs pc0 world_sweep (time0 + 61000000000) ''cache/a.gz''"
  "\<not> swept refcodecs pc0 world_sweep (time0 + 61000000000) ''cache/b.gz''"
  "\<not> swept refcodecs pc0 world_sweep (time0 + 61000000000) ''cache/c.gz''"
  "\<not> swept refcodecs pc0 world_sweep (time0 + 61000000000) ''cache/d''"
  "\<not> swept refcodecs pc0 world_sweep (time0 + 61000000000) ''cache/e.gz''"
  by (simp_all add: swept_def expired_world_sweep)
     (simp_all add: is_child_def pc0_def world_sweep_def)

theorem sweep_removes_exactly_stale_witness:
  "distinct (map fst (files world_sweep))
   \<and> faults world_sweep SysReadDir (cacheDir pc0) = None
   \<and> snd (cleanExpiredCache refcodecs pc0 world_sweep (time0 + 61000000000)) = None
   \<and> files (fst (cleanExpiredCache refcodecs pc0 world_sweep (time0 + 61000000000)))
       = [(''cache/b.gz'', File file1), (''cache/c.gz'', File truncated), (''cache/d'', Dir),
          (''cache/e.gz'', File file0)]
   \<and> ''Error reading cache file cache/c.gz: unexpected EOF''
       \<in> set (logged (fst (cleanExpiredCache refcodecs pc0 world_sweep (time0 + 61000000000))))
   \<and> ''Error removing expired cache file cache/e.gz: remove cache/e.gz: permission denied''
       \<in> set (logged (fst (cleanExpiredCache refcodecs pc0 world_sweep (time0 + 61000000000))))"
proof -
  let ?run = "cleanExpiredCache refcodecs pc0 world_sweep (time0 + 61000000000)"
  have h1: "distinct (map fst (files world_sweep))"
    by (simp add: files_world_sweep)
  have h2: "faults world_sweep SysReadDir (cacheDir pc0) = None"
    by (simp add: world_sweep_def)
  have h3: "?run = (fst ?run, snd ?run)"
    by simp
  note t = sweep_removes_exactly_stale [OF h1 h2 h3]
  have res: "snd ?run = None"
    using t by simp
  have fs: "files (fst ?run)
       = [(''cache/b.gz'', File file1), (''cache/c.gz'', File truncated), (''cache/d'', Dir),
          (''cache/e.gz'', File file0)]"
    using t by (simp add: files_world_sweep swept_world_sweep)
  have c: "(''cache/c.gz'', File truncated) \<in> set (files world_sweep)
        \<and> is_child (cacheDir pc0) ''cache/c.gz'' \<and> File truncated \<noteq> Dir
        \<and> readCacheFile refcodecs world_sweep ''cache/c.gz''
            = Inl (ErrorString ''unexpected EOF'')"
  proof -
    have "is_child (cacheDir pc0) ''cache/c.gz''"
      by (simp add: is_child_def pc0_def)
    then show ?thesis
      by (simp add: files_world_sweep readCacheFile_world_sweep)
  qed
  have e: "(''cache/e.gz'', File file0) \<in> set (files world_sweep)
        \<and> is_child (cacheDir pc0) ''cache/e.gz''
        \<and> expired refcodecs pc0 world_sweep (time0 + 61000000000) ''cache/e.gz''
        \<and> faults world_sweep SysRemove ''cache/e.gz'' = Some EACCES"
  proof -
    have "is_child (cacheDir pc0) ''cache/e.gz''"
      by (simp add: is_child_def pc0_def)
    moreover have "faults world_sweep SysRemove ''cache/e.gz'' = Some EACCES"
      by (simp add: world_sweep_def)
    ultimately show ?thesis
      by (simp add: files_world_sweep expired_world_sweep)
  qed
  from t have "\<forall>p f e. (p, f) \<in> set (files world_sweep) \<and> is_child (cacheDir pc0) p \<and> f \<noteq> Dir
          \<and> readCacheFile refcodecs world_sweep p = Inl e
          \<longrightarrow> ''Error reading cache file '' @ p @ '': '' @ Error e \<in> set (logged (fst ?run))"
    by blast
  from this [rule_format, OF c] have lc: "''Error reading cache file cache/c.gz: unexpected EOF''
       \<in> set (logged (fst ?run))"
    by simp
  from t have "\<forall>p f e. (p, f) \<in> set (files world_sweep) \<and> is_child (cacheDir pc0) p
          \<and> expired refcodecs pc0 world_sweep (time0 + 61000000000) p
          \<and> faults world_sweep SysRemove p = Some e
          \<longrightarrow> ''Error removing expired cache file '' @ p @ '': ''
                @ Error (PathError ''remove'' p e) \<in> set (logged (fst ?run))"
    by blast
  from this [rule_format, OF e]
  have le: "''Error removing expired cache file cache/e.gz: remove cache/e.gz: permission denied''
       \<in> set (logged (fst ?run))"
    by simp
  from h1 h2 res fs lc le show ?thesis by simp
qed

end
